theory Spec2Isabelle
  imports Main
begin

section \<open>The hosted store\<close>

text \<open>
  The backend keeps no state of its own: every handler reads and writes the tables
  \<^verbatim>\<open>files\<close>, \<^verbatim>\<open>file_versions\<close>, \<^verbatim>\<open>shares\<close>, \<^verbatim>\<open>profiles\<close>, \<^verbatim>\<open>user_quotas\<close> and the
  object bucket \<^verbatim>\<open>files\<close> of the hosted store. A table is the list of its rows, in
  insertion order; a handler takes the store and returns its response with the store it
  leaves behind. Identifiers are the strings the code passes around; a string is the
  list of the bytes of its UTF-8 encoding. Columns the handlers neither test nor copy
  (\<^verbatim>\<open>created_at\<close>, \<^verbatim>\<open>updated_at\<close>) are left out, and so is the socket fan-out, which
  never changes a response or the store.
\<close>

type_synonym uuid = string

text \<open>
  Numbers. Byte counts, file counts and version numbers reach the handlers as JavaScript
  numbers, which are doubles; an \<open>int\<close> here is the value of such a number. Every integer
  of magnitude up to \<open>2 ^ 53\<close> is a double. Beyond, doubles are \<open>ulp\<close> apart and a sum is
  rounded to the nearest one, a tie going to the even significand: \<open>2 ^ 53 + 1\<close> is
  \<open>2 ^ 53\<close> again. (Overflow to \<^verbatim>\<open>Infinity\<close>, from \<open>2 ^ 1024\<close> on, is out of the reach of
  what a 64-bit column holds and is not modelled.)
\<close>

function ulp :: "int \<Rightarrow> int" where
  "ulp n = (if n < 2 ^ 53 then 1 else 2 * ulp (n div 2))"
  by pat_completeness auto
termination
  by (relation "measure nat") auto

declare ulp.simps [simp del]

definition to_double :: "int \<Rightarrow> int" where
  "to_double x =
     (if \<bar>x\<bar> \<le> 2 ^ 53 then x
      else (let q = ulp \<bar>x\<bar>; m = x div q; r = x mod q
            in if 2 * r < q then m * q
               else if q < 2 * r then (m + 1) * q
               else if even m then m * q else (m + 1) * q))"

definition js_add :: "int \<Rightarrow> int \<Rightarrow> int" where
  "js_add a b = to_double (a + b)"

record file_row =
  f_id :: uuid
  f_user_id :: uuid
  f_name :: string
  f_original_name :: string
  f_size :: int
  f_type :: string
  f_mime_type :: string
  f_extension :: "string option"
  f_path :: string
  f_parent_id :: "uuid option"
  f_is_folder :: bool
  f_is_starred :: bool
  f_is_deleted :: bool
  f_deleted_at :: "int option"

datatype change_type = Update | Restore

record version_row =
  v_file_id :: uuid
  v_version_number :: int
  v_size :: int
  v_path :: string
  v_change_type :: change_type
  v_created_by :: uuid

datatype permissions = PView | PEdit | PAdmin

datatype share_type = Private | Public

record share_row =
  s_id :: uuid
  s_file_id :: uuid
  s_owner_id :: uuid
  s_shared_with_email :: string
  s_permissions :: permissions
  s_share_type :: share_type
  s_public_token :: "string option"
  s_expires_at :: "int option"

record profile_row =
  p_id :: uuid
  p_email :: string

record quota_row =
  q_user_id :: uuid
  q_storage_used :: "int option"
  q_storage_limit :: "int option"
  q_file_count :: "int option"
  q_file_count_limit :: "int option"

record db =
  files :: "file_row list"
  file_versions :: "version_row list"
  shares :: "share_row list"
  profiles :: "profile_row list"
  user_quotas :: "quota_row list"
  storage :: "string list"

text \<open>
  A call to the store can fail for reasons the tables do not show (network, policy).
  A handler takes a fault schedule: \<open>flt k\<close> says that the \<open>k\<close>-th awaited store call of
  that handler, counted from 0 in source order, fails. \<open>reliable\<close> is the schedule with
  no fault.
\<close>

type_synonym faults = "nat \<Rightarrow> bool"

definition reliable :: faults where
  "reliable = (\<lambda>k. False)"

text \<open>
  The client's \<^verbatim>\<open>{ data, error }\<close>. \<^verbatim>\<open>.single()\<close> is an error unless exactly one row
  matches; \<^verbatim>\<open>.maybeSingle()\<close> gives \<^verbatim>\<open>data: null\<close> on no row and is an error on several.
\<close>

datatype 'a qres = QError | QData "'a option"

fun data :: "'a qres \<Rightarrow> 'a option" where
  "data QError = None"
| "data (QData r) = r"

fun exactly_one :: "'a list \<Rightarrow> 'a qres" where
  "exactly_one [r] = QData (Some r)"
| "exactly_one rows = QError"

fun at_most_one :: "'a list \<Rightarrow> 'a qres" where
  "at_most_one [] = QData None"
| "at_most_one [r] = QData (Some r)"
| "at_most_one rows = QError"

definition single :: "bool \<Rightarrow> 'a list \<Rightarrow> 'a qres" where
  "single fault rows = (if fault then QError else exactly_one rows)"

definition maybeSingle :: "bool \<Rightarrow> 'a list \<Rightarrow> 'a qres" where
  "maybeSingle fault rows = (if fault then QError else at_most_one rows)"

text \<open>Responses: the HTTP status and the JSON body (\<^verbatim>\<open>res.json\<close> alone is status 200).\<close>

datatype signed_url = SignedUrl string nat

record file_meta =
  m_id :: uuid
  m_name :: string
  m_size :: int
  m_type :: string

datatype body =
    ErrorBody string
  | QuotaErrorBody string
  | MessageBody string
  | FileBody string file_row
  | DownloadBody signed_url file_meta
  | VersionBody string version_row
  | ShareBody string share_row
  | PublicLinkBody string string share_row

type_synonym response = "nat \<times> body"

definition internal_error :: response where
  "internal_error = (500, ErrorBody ''Internal server error'')"

section \<open>File operations\<close>

subsection \<open>Helpers\<close>

text \<open>
  \<^verbatim>\<open>getFileExt\<close>: the part after the last dot, \<^verbatim>\<open>null\<close> when the name has no dot or
  ends in one.
\<close>

definition getFileExt :: "string \<Rightarrow> string option" where
  "getFileExt name =
     (if CHR ''.'' \<in> set name
      then (let e = rev (takeWhile (\<lambda>c. c \<noteq> CHR ''.'') (rev name))
            in if e = [] then None else Some e)
      else None)"

datatype quota_check = Allowed | Denied string

text \<open>
  \<^verbatim>\<open>enforceQuotaOnUpload\<close>. The error of the quota read is not looked at: a failed read
  leaves \<^verbatim>\<open>quota\<close> undefined, as a missing row does. Each field falls back on its own
  (\<^verbatim>\<open>quota?.storage_limit ?? ...\<close>). The \<^verbatim>\<open>reason\<close> text, which formats megabytes with
  \<^verbatim>\<open>toFixed\<close>, is not modelled; \<open>Denied\<close> carries the \<^verbatim>\<open>code\<close>.
\<close>

definition orElse :: "'a option \<Rightarrow> 'a \<Rightarrow> 'a" where
  "orElse v dflt = (case v of Some x \<Rightarrow> x | None \<Rightarrow> dflt)"

definition enforceQuotaOnUpload :: "bool \<Rightarrow> db \<Rightarrow> uuid \<Rightarrow> int \<Rightarrow> quota_check" where
  "enforceQuotaOnUpload fault d userId newFileSize =
     (let quota = data (maybeSingle fault (filter (\<lambda>q. q_user_id q = userId) (user_quotas d)));
          storageLimit = orElse (Option.bind quota q_storage_limit) (5 * 1024 * 1024 * 1024);
          storageUsed = orElse (Option.bind quota q_storage_used) 0;
          fileCount = orElse (Option.bind quota q_file_count) 0;
          fileCountLimit = orElse (Option.bind quota q_file_count_limit) 10000
      in if js_add storageUsed newFileSize > storageLimit then Denied ''STORAGE_LIMIT_EXCEEDED''
         else if js_add fileCount 1 > fileCountLimit then Denied ''FILE_COUNT_LIMIT_EXCEEDED''
         else Allowed)"

text \<open>
  The bucket: \<^verbatim>\<open>upload\<close> with \<^verbatim>\<open>upsert: false\<close> refuses a path that is taken;
  \<^verbatim>\<open>remove\<close> deletes the object if it is there.
\<close>

definition storage_upload :: "bool \<Rightarrow> string \<Rightarrow> db \<Rightarrow> db option" where
  "storage_upload fault p d =
     (if fault \<or> p \<in> set (storage d) then None
      else Some (d\<lparr>storage := storage d @ [p]\<rparr>))"

definition storage_remove :: "bool \<Rightarrow> string \<Rightarrow> db \<Rightarrow> db option" where
  "storage_remove fault p d =
     (if fault then None
      else Some (d\<lparr>storage := filter (\<lambda>x. x \<noteq> p) (storage d)\<rparr>))"

subsection \<open>POST /upload\<close>

record upload_file =
  u_originalname :: string
  u_mimetype :: string
  u_size :: int

text \<open>
  \<open>stamp\<close> is the \<^verbatim>\<open>Date.now()\<close>-random prefix of the object name and \<open>newId\<close> the id the
  database gives the row. Store calls: 0 the quota read, 1 the blob upload, 2 the insert.
  \<^verbatim>\<open>parentId || null\<close> turns an empty parent id into null.
\<close>

definition orNull :: "string option \<Rightarrow> string option" where
  "orNull v = (case v of Some s \<Rightarrow> (if s = [] then None else Some s) | None \<Rightarrow> None)"

definition upload :: "faults \<Rightarrow> string \<Rightarrow> uuid \<Rightarrow> db \<Rightarrow> uuid \<Rightarrow> upload_file option
    \<Rightarrow> string option \<Rightarrow> response \<times> db" where
  "upload flt stamp newId d userId file parentId =
     (case file of
        None \<Rightarrow> ((400, ErrorBody ''No file uploaded''), d)
      | Some fl \<Rightarrow>
        (case enforceQuotaOnUpload (flt 0) d userId (u_size fl) of
           Denied code \<Rightarrow> ((403, QuotaErrorBody code), d)
         | Allowed \<Rightarrow>
           (let fileExt = getFileExt (u_originalname fl);
                fileName = stamp @ (case fileExt of Some e \<Rightarrow> ''.'' @ e | None \<Rightarrow> '''');
                p = userId @ ''/'' @ fileName
            in case storage_upload (flt 1) p d of
                 None \<Rightarrow> (internal_error, d)
               | Some d1 \<Rightarrow>
                 if flt 2 then (internal_error, d1)
                 else
                   (let fileData = \<lparr> f_id = newId, f_user_id = userId,
                          f_name = u_originalname fl, f_original_name = u_originalname fl,
                          f_size = u_size fl, f_type = u_mimetype fl, f_mime_type = u_mimetype fl,
                          f_extension = fileExt, f_path = p, f_parent_id = orNull parentId,
                          f_is_folder = False, f_is_starred = False, f_is_deleted = False,
                          f_deleted_at = None \<rparr>
                    in ((200, FileBody ''File uploaded successfully'' fileData),
                        d1\<lparr>files := files d1 @ [fileData]\<rparr>)))))"

subsection \<open>Permission resolution\<close>

datatype PermissionLevel = LView | LEdit | LOwner

text \<open>\<^verbatim>\<open>getCurrentUserEmail\<close>: the email of the caller's profile, \<^verbatim>\<open>null\<close> without one.\<close>

definition getCurrentUserEmail :: "bool \<Rightarrow> db \<Rightarrow> uuid \<Rightarrow> string option" where
  "getCurrentUserEmail fault d userId =
     (case data (single fault (filter (\<lambda>p. p_id p = userId) (profiles d))) of
        None \<Rightarrow> None
      | Some user \<Rightarrow> Some (p_email user))"

definition isOwner :: "bool \<Rightarrow> db \<Rightarrow> uuid \<Rightarrow> uuid \<Rightarrow> bool" where
  "isOwner fault d userId fileId =
     (case maybeSingle fault (filter (\<lambda>f. f_id f = fileId \<and> f_user_id f = userId) (files d)) of
        QError \<Rightarrow> False
      | QData r \<Rightarrow> r \<noteq> None)"

text \<open>
  \<^verbatim>\<open>hasFilePermission\<close>. Store calls: 0 the ownership read, 1 the profile read, 2 the
  share read. \<^verbatim>\<open>!email\<close> holds of \<^verbatim>\<open>null\<close> and of the empty string. The share read
  filters on the file id and the email only.
\<close>

definition hasFilePermission :: "faults \<Rightarrow> db \<Rightarrow> uuid \<Rightarrow> uuid \<Rightarrow> PermissionLevel
    \<Rightarrow> bool \<times> PermissionLevel option" where
  "hasFilePermission flt d userId fileId needed =
     (if isOwner (flt 0) d userId fileId then (True, Some LOwner)
      else if needed = LOwner then (False, None)
      else
        (case getCurrentUserEmail (flt 1) d userId of
           None \<Rightarrow> (False, None)
         | Some email \<Rightarrow>
           if email = [] then (False, None)
           else
             (case data (maybeSingle (flt 2)
                     (filter (\<lambda>s. s_file_id s = fileId \<and> s_shared_with_email s = email)
                        (shares d))) of
                None \<Rightarrow> (False, None)
              | Some share \<Rightarrow>
                (let perm = s_permissions share;
                     level = (if perm = PView then LView else LEdit)
                 in if needed = LView then (True, Some level)
                    else if needed = LEdit then (level = LEdit, Some level)
                    else (False, None)))))"

subsection \<open>PATCH /:id\<close>

text \<open>
  The body's \<^verbatim>\<open>name\<close>, \<^verbatim>\<open>parentId\<close> (absent, null or a string) and \<^verbatim>\<open>starred\<close>.
  \<^verbatim>\<open>String.prototype.trim\<close> strips the white space and line terminators of ECMAScript
  from both ends: U+0009 to U+000D, U+0020, U+00A0, U+1680, U+2000 to U+200A, U+2028,
  U+2029, U+202F, U+205F, U+3000 and U+FEFF, listed here by their UTF-8 encodings.
\<close>

record patch_body =
  b_name :: "string option"
  b_parentId :: "string option option"
  b_starred :: "bool option"

definition white_space :: "string list" where
  "white_space =
     [[CHR 0x09], [CHR 0x0A], [CHR 0x0B], [CHR 0x0C], [CHR 0x0D], [CHR 0x20],
      [CHR 0xC2, CHR 0xA0], [CHR 0xE1, CHR 0x9A, CHR 0x80],
      [CHR 0xE2, CHR 0x80, CHR 0x80], [CHR 0xE2, CHR 0x80, CHR 0x81],
      [CHR 0xE2, CHR 0x80, CHR 0x82], [CHR 0xE2, CHR 0x80, CHR 0x83],
      [CHR 0xE2, CHR 0x80, CHR 0x84], [CHR 0xE2, CHR 0x80, CHR 0x85],
      [CHR 0xE2, CHR 0x80, CHR 0x86], [CHR 0xE2, CHR 0x80, CHR 0x87],
      [CHR 0xE2, CHR 0x80, CHR 0x88], [CHR 0xE2, CHR 0x80, CHR 0x89],
      [CHR 0xE2, CHR 0x80, CHR 0x8A], [CHR 0xE2, CHR 0x80, CHR 0xA8],
      [CHR 0xE2, CHR 0x80, CHR 0xA9], [CHR 0xE2, CHR 0x80, CHR 0xAF],
      [CHR 0xE2, CHR 0x81, CHR 0x9F], [CHR 0xE3, CHR 0x80, CHR 0x80],
      [CHR 0xEF, CHR 0xBB, CHR 0xBF]]"

function strip_start :: "string list \<Rightarrow> string \<Rightarrow> string" where
  "strip_start ws s =
     (case find (\<lambda>w. w \<noteq> [] \<and> take (length w) s = w) ws of
        None \<Rightarrow> s
      | Some w \<Rightarrow> strip_start ws (drop (length w) s))"
  by pat_completeness auto
termination
proof (relation "measure (\<lambda>(ws, s). length s)")
  show "wf (measure (\<lambda>(ws, s). length s))" by simp
next
  fix ws :: "string list" and s w :: string
  assume "find (\<lambda>w. w \<noteq> [] \<and> take (length w) s = w) ws = Some w"
  then have w: "w \<noteq> []" "take (length w) s = w" by (auto simp: find_Some_iff)
  have "length (take (length w) s) = length w" using w(2) by simp
  then have "length w \<le> length s" by simp
  then show "((ws, drop (length w) s), (ws, s)) \<in> measure (\<lambda>(ws, s). length s)"
    using w(1) by (cases w) auto
qed

declare strip_start.simps [simp del]

definition trim :: "string \<Rightarrow> string" where
  "trim s = rev (strip_start (map rev white_space) (rev (strip_start white_space s)))"

definition owned_file :: "bool \<Rightarrow> db \<Rightarrow> uuid \<Rightarrow> uuid \<Rightarrow> file_row option" where
  "owned_file fault d userId fileId =
     data (single fault (filter (\<lambda>f. f_id f = fileId \<and> f_user_id f = userId) (files d)))"

definition apply_patch :: "patch_body \<Rightarrow> file_row \<Rightarrow> file_row" where
  "apply_patch b f =
     (let f1 = (case b_name b of
                  Some n \<Rightarrow> (if trim n \<noteq> [] then f\<lparr>f_name := trim n, f_original_name := trim n\<rparr> else f)
                | None \<Rightarrow> f);
          f2 = (case b_parentId b of Some p \<Rightarrow> f1\<lparr>f_parent_id := orNull p\<rparr> | None \<Rightarrow> f1)
      in (case b_starred b of Some st \<Rightarrow> f2\<lparr>f_is_starred := st\<rparr> | None \<Rightarrow> f2))"

definition no_changes :: "patch_body \<Rightarrow> bool" where
  "no_changes b =
     ((case b_name b of Some n \<Rightarrow> trim n = [] | None \<Rightarrow> True)
      \<and> b_parentId b = None \<and> b_starred b = None)"

text \<open>
  Store calls: 0 the ownership read (on the file id and the caller), 1 the update, which
  selects on the file id alone and asks for a single row back; when it does not get one
  the request ends in 500 and the update is taken as not applied.
\<close>

definition patch_file :: "faults \<Rightarrow> db \<Rightarrow> uuid \<Rightarrow> uuid \<Rightarrow> patch_body \<Rightarrow> response \<times> db" where
  "patch_file flt d userId fileId b =
     (case owned_file (flt 0) d userId fileId of
        None \<Rightarrow> ((404, ErrorBody ''File not found''), d)
      | Some exists \<Rightarrow>
        if no_changes b then ((400, ErrorBody ''No changes provided''), d)
        else
          (case data (single (flt 1) (map (apply_patch b) (filter (\<lambda>f. f_id f = fileId) (files d)))) of
             None \<Rightarrow> (internal_error, d)
           | Some updated \<Rightarrow>
             ((200, FileBody ''File updated'' updated),
              d\<lparr>files := map (\<lambda>f. if f_id f = fileId then apply_patch b f else f) (files d)\<rparr>)))"

subsection \<open>POST /folders\<close>

text \<open>
  \<open>stamp\<close> is the \<^verbatim>\<open>Date.now()\<close>-random suffix of the folder's path and \<open>newId\<close> the id the
  database gives the row. Store call 0 is the insert. The payload names no MIME type; the
  row's is the empty string here.
\<close>

definition create_folder :: "faults \<Rightarrow> string \<Rightarrow> uuid \<Rightarrow> db \<Rightarrow> uuid \<Rightarrow> string option
    \<Rightarrow> string option \<Rightarrow> response \<times> db" where
  "create_folder flt stamp newId d userId name parentId =
     (if (case name of Some n \<Rightarrow> trim n = [] | None \<Rightarrow> True)
      then ((400, ErrorBody ''Folder name is required''), d)
      else if flt 0 then (internal_error, d)
      else
        (let folder = \<lparr> f_id = newId, f_user_id = userId,
               f_name = trim (orElse name []), f_original_name = trim (orElse name []),
               f_size = 0, f_type = ''folder'', f_mime_type = [], f_extension = None,
               f_path = userId @ ''/folders/'' @ stamp, f_parent_id = orNull parentId,
               f_is_folder = True, f_is_starred = False, f_is_deleted = False,
               f_deleted_at = None \<rparr>
         in ((200, FileBody ''Folder created'' folder), d\<lparr>files := files d @ [folder]\<rparr>)))"

subsection \<open>DELETE /:id, POST /:id/restore, DELETE /:id/permanent\<close>

text \<open>
  Soft delete. Store calls: 0 the ownership read, 1 the update. \<open>now\<close> is the clock.
\<close>

definition soft_delete :: "faults \<Rightarrow> int \<Rightarrow> db \<Rightarrow> uuid \<Rightarrow> uuid \<Rightarrow> response \<times> db" where
  "soft_delete flt now d userId fileId =
     (case owned_file (flt 0) d userId fileId of
        None \<Rightarrow> ((404, ErrorBody ''File not found''), d)
      | Some file \<Rightarrow>
        if f_is_deleted file = True then ((409, ErrorBody ''File already in trash''), d)
        else if flt 1 then (internal_error, d)
        else ((200, MessageBody ''File moved to trash''),
              d\<lparr>files := map (\<lambda>f. if f_id f = fileId
                                   then f\<lparr>f_is_deleted := True, f_deleted_at := Some now\<rparr> else f)
                             (files d)\<rparr>))"

definition restore_file :: "faults \<Rightarrow> db \<Rightarrow> uuid \<Rightarrow> uuid \<Rightarrow> response \<times> db" where
  "restore_file flt d userId fileId =
     (case owned_file (flt 0) d userId fileId of
        None \<Rightarrow> ((404, ErrorBody ''File not found''), d)
      | Some file \<Rightarrow>
        if f_is_deleted file \<noteq> True then ((409, ErrorBody ''File is not in trash''), d)
        else if flt 1 then (internal_error, d)
        else ((200, MessageBody ''File restored''),
              d\<lparr>files := map (\<lambda>f. if f_id f = fileId
                                   then f\<lparr>f_is_deleted := False, f_deleted_at := None\<rparr> else f)
                             (files d)\<rparr>))"

text \<open>
  Permanent delete. Store calls: 0 the ownership read, 1 the blob removal (skipped for an
  empty path; its error is logged and dropped), 2 the row delete.
\<close>

definition permanent_delete :: "faults \<Rightarrow> db \<Rightarrow> uuid \<Rightarrow> uuid \<Rightarrow> response \<times> db" where
  "permanent_delete flt d userId fileId =
     (case owned_file (flt 0) d userId fileId of
        None \<Rightarrow> ((404, ErrorBody ''File not found''), d)
      | Some file \<Rightarrow>
        (let d1 = (if f_path file \<noteq> []
                   then (case storage_remove (flt 1) (f_path file) d of
                           None \<Rightarrow> d
                         | Some d' \<Rightarrow> d')
                   else d)
         in if flt 2 then (internal_error, d1)
            else ((200, MessageBody ''File permanently deleted''),
                  d1\<lparr>files := filter (\<lambda>f. f_id f \<noteq> fileId) (files d1)\<rparr>)))"

subsection \<open>GET /:id/download\<close>

text \<open>
  The bucket signs a URL for an object it holds; the URL is kept as the object path and
  the lifetime in seconds.
\<close>

definition createSignedUrl :: "bool \<Rightarrow> db \<Rightarrow> string \<Rightarrow> nat \<Rightarrow> signed_url option" where
  "createSignedUrl fault d p expiresIn =
     (if fault \<or> p \<notin> set (storage d) then None else Some (SignedUrl p expiresIn))"

text \<open>
  Store calls: 0 to 2 those of \<open>hasFilePermission\<close>, 3 the file read, 4 the signing.
\<close>

definition download :: "faults \<Rightarrow> db \<Rightarrow> uuid \<Rightarrow> uuid \<Rightarrow> response" where
  "download flt d userId fileId =
     (let perm = hasFilePermission flt d userId fileId LView
      in if \<not> fst perm then (403, ErrorBody ''Access denied'')
         else
           (case data (single (flt 3)
                   (filter (\<lambda>f. f_id f = fileId \<and> f_is_deleted f = False) (files d))) of
              None \<Rightarrow> (404, ErrorBody ''File not found'')
            | Some file \<Rightarrow>
              (case createSignedUrl (flt 4) d (f_path file) 3600 of
                 None \<Rightarrow> internal_error
               | Some signedUrl \<Rightarrow>
                 (200, DownloadBody signedUrl
                    \<lparr> m_id = f_id file, m_name = f_name file, m_size = f_size file,
                      m_type = f_type file \<rparr>))))"

subsection \<open>File versioning\<close>

text \<open>
  The read both version routes use to number a new row: the rows of the file ordered by
  \<^verbatim>\<open>version_number\<close> descending, \<^verbatim>\<open>limit(1)\<close>, \<^verbatim>\<open>maybeSingle()\<close>. Its error is never
  looked at, so a failed read counts as no version.
\<close>

definition file_versions_of :: "db \<Rightarrow> uuid \<Rightarrow> version_row list" where
  "file_versions_of d fileId = filter (\<lambda>v. v_file_id v = fileId) (file_versions d)"

definition order_desc :: "version_row list \<Rightarrow> version_row list" where
  "order_desc rows = rev (sort_key v_version_number rows)"

definition nextVersion :: "bool \<Rightarrow> db \<Rightarrow> uuid \<Rightarrow> int" where
  "nextVersion fault d fileId =
     (let lastVersion = data (maybeSingle fault (take 1 (order_desc (file_versions_of d fileId))))
      in js_add (case lastVersion of Some v \<Rightarrow> v_version_number v | None \<Rightarrow> 0) 1)"

text \<open>
  Modelled from the spec: the declaration of the table \<^verbatim>\<open>file_versions\<close> is not in the
  repository. The specification has the store enforce uniqueness of the pair of file id
  and version number, as the backstop of the read-then-insert numbering: an insert of a
  number the file already has fails, and the handler, which tests the error of the
  insert, answers 500.
\<close>

definition version_number_taken :: "db \<Rightarrow> uuid \<Rightarrow> int \<Rightarrow> bool" where
  "version_number_taken d fileId n =
     (\<exists>v \<in> set (file_versions_of d fileId). v_version_number v = n)"

text \<open>
  POST /:id/versions. \<open>stamp\<close> is the \<^verbatim>\<open>Date.now()\<close>-random prefix of the object name.
  Store calls: 0 the read of the caller's undeleted file, 1 the blob upload, 2 the
  last-version read, 3 the insert, 4 the update of the file row. An upload without
  extension leaves \<^verbatim>\<open>extension: undefined\<close> in the update, which the client drops: the
  row keeps the extension it had.
\<close>

definition create_version :: "faults \<Rightarrow> string \<Rightarrow> db \<Rightarrow> uuid \<Rightarrow> uuid \<Rightarrow> upload_file option
    \<Rightarrow> response \<times> db" where
  "create_version flt stamp d userId fileId fileBlob =
     (case fileBlob of
        None \<Rightarrow> ((400, ErrorBody ''No file uploaded''), d)
      | Some fb \<Rightarrow>
        (case data (single (flt 0)
                (filter (\<lambda>f. f_id f = fileId \<and> f_user_id f = userId \<and> f_is_deleted f = False)
                   (files d))) of
           None \<Rightarrow> ((404, ErrorBody ''File not found''), d)
         | Some file \<Rightarrow>
           (let ext = getFileExt (u_originalname fb);
                versionName = stamp @ (case ext of Some e \<Rightarrow> ''.'' @ e | None \<Rightarrow> '''');
                versionPath = userId @ ''/versions/'' @ fileId @ ''/'' @ versionName
            in case storage_upload (flt 1) versionPath d of
                 None \<Rightarrow> (internal_error, d)
               | Some d1 \<Rightarrow>
                 (let version = \<lparr> v_file_id = fileId,
                          v_version_number = nextVersion (flt 2) d1 fileId,
                          v_size = u_size fb, v_path = versionPath, v_change_type = Update,
                          v_created_by = userId \<rparr>
                  in if flt 3 \<or> version_number_taken d1 fileId (v_version_number version)
                     then (internal_error, d1)
                     else
                       (let d2 = d1\<lparr>file_versions := file_versions d1 @ [version]\<rparr>
                        in if flt 4 then (internal_error, d2)
                           else ((200, VersionBody ''New version created'' version),
                                 d2\<lparr>files := map (\<lambda>f. if f_id f = fileId
                                            then f\<lparr>f_size := u_size fb, f_type := u_mimetype fb,
                                                   f_mime_type := u_mimetype fb,
                                                   f_extension := (case ext of Some e \<Rightarrow> Some e
                                                                   | None \<Rightarrow> f_extension f),
                                                   f_path := versionPath\<rparr>
                                            else f) (files d2)\<rparr>))))))"

text \<open>
  POST /:id/versions/:versionNumber/restore. \<open>versionNumber\<close> is what \<^verbatim>\<open>parseInt\<close> made
  of the path segment, \<open>None\<close> for \<^verbatim>\<open>NaN\<close>. Store calls: 0 the ownership read, 1 the
  version read, 2 the update of the file row, 3 the last-version read, 4 the insert.
\<close>

definition restore_version :: "faults \<Rightarrow> db \<Rightarrow> uuid \<Rightarrow> uuid \<Rightarrow> int option \<Rightarrow> response \<times> db" where
  "restore_version flt d userId fileId versionNumber =
     (case versionNumber of
        None \<Rightarrow> ((400, ErrorBody ''Invalid version number''), d)
      | Some n \<Rightarrow>
        (case owned_file (flt 0) d userId fileId of
           None \<Rightarrow> ((404, ErrorBody ''File not found''), d)
         | Some file \<Rightarrow>
           (case data (single (flt 1)
                   (filter (\<lambda>v. v_version_number v = n) (file_versions_of d fileId))) of
              None \<Rightarrow> ((404, ErrorBody ''Version not found''), d)
            | Some version \<Rightarrow>
              if flt 2 then (internal_error, d)
              else
                (let d1 = d\<lparr>files := map (\<lambda>f. if f_id f = fileId
                                 then f\<lparr>f_path := v_path version, f_size := v_size version\<rparr>
                                 else f) (files d)\<rparr>;
                     row = \<lparr> v_file_id = fileId,
                          v_version_number = nextVersion (flt 3) d1 fileId,
                          v_size = v_size version, v_path = v_path version,
                          v_change_type = Restore, v_created_by = userId \<rparr>
                 in if flt 4 \<or> version_number_taken d1 fileId (v_version_number row)
                    then (internal_error, d1)
                    else ((200, MessageBody ''File restored to selected version''),
                          d1\<lparr>file_versions := file_versions d1 @ [row]\<rparr>)))))"

section \<open>Share operations\<close>

text \<open>
  POST /:fileId/share. The body's \<^verbatim>\<open>email\<close> and \<^verbatim>\<open>permissions\<close> (\<^verbatim>\<open>"view"\<close> when
  absent). \<open>newId\<close> is the id the database gives the row. Store calls: 0 the ownership
  read, 1 the read of the target profile, 2 the read of an existing share (its error is
  not looked at), 3 the insert. The message of the 400 for a permission outside view,
  edit and admin is shortened.
\<close>

definition parse_permissions :: "string \<Rightarrow> permissions option" where
  "parse_permissions s =
     (if s = ''view'' then Some PView
      else if s = ''edit'' then Some PEdit
      else if s = ''admin'' then Some PAdmin
      else None)"

text \<open>
  Modelled from the spec: the insert of a targeted share names no \<^verbatim>\<open>share_type\<close>,
  \<^verbatim>\<open>public_token\<close> or \<^verbatim>\<open>expires_at\<close>; the table's column defaults, which are not in the
  repository, make the row a private share with no token and no expiry.
\<close>

definition default_share_type :: share_type where
  "default_share_type = Private"

definition share_file :: "faults \<Rightarrow> uuid \<Rightarrow> db \<Rightarrow> uuid \<Rightarrow> uuid \<Rightarrow> string option \<Rightarrow> string option
    \<Rightarrow> response \<times> db" where
  "share_file flt newId d userId fileId email perms =
     (case orNull email of
        None \<Rightarrow> ((400, ErrorBody ''Email is required''), d)
      | Some em \<Rightarrow>
        (case parse_permissions (orElse perms ''view'') of
           None \<Rightarrow> ((400, ErrorBody ''Invalid permissions''), d)
         | Some pm \<Rightarrow>
           (case owned_file (flt 0) d userId fileId of
              None \<Rightarrow> ((404, ErrorBody ''File not found''), d)
            | Some file \<Rightarrow>
              (case data (single (flt 1) (filter (\<lambda>p. p_email p = em) (profiles d))) of
                 None \<Rightarrow> ((404, ErrorBody ''User not found''), d)
               | Some targetUser \<Rightarrow>
                 (case data (maybeSingle (flt 2)
                         (filter (\<lambda>s. s_file_id s = fileId \<and> s_shared_with_email s = em)
                            (shares d))) of
                    Some existingShare \<Rightarrow>
                      ((409, ErrorBody ''File already shared with this user''), d)
                  | None \<Rightarrow>
                    if flt 3 then (internal_error, d)
                    else
                      (let share = \<lparr> s_id = newId, s_file_id = fileId, s_owner_id = userId,
                              s_shared_with_email = em, s_permissions = pm,
                              s_share_type = default_share_type, s_public_token = None,
                              s_expires_at = None \<rparr>
                       in ((200, ShareBody ''File shared successfully'' share),
                           d\<lparr>shares := shares d @ [share]\<rparr>)))))))"

text \<open>
  DELETE /:fileId/shares/:shareId. Store calls: 0 the ownership read, 1 the delete.
\<close>

definition revoke_share :: "faults \<Rightarrow> db \<Rightarrow> uuid \<Rightarrow> uuid \<Rightarrow> uuid \<Rightarrow> response \<times> db" where
  "revoke_share flt d userId fileId shareId =
     (case owned_file (flt 0) d userId fileId of
        None \<Rightarrow> ((404, ErrorBody ''File not found''), d)
      | Some file \<Rightarrow>
        if flt 1 then (internal_error, d)
        else ((200, MessageBody ''Share revoked successfully''),
              d\<lparr>shares := filter (\<lambda>s. \<not> (s_id s = shareId \<and> s_file_id s = fileId)) (shares d)\<rparr>))"

text \<open>
  POST /:fileId/public. \<open>publicToken\<close> is the hex of \<^verbatim>\<open>crypto.randomBytes(24)\<close>, \<open>newId\<close> the
  id of the new row, \<open>expiresAt\<close> the instant the body names (absent or empty: null).
  Store calls: 0 the ownership read, 1 the insert.
\<close>

definition create_public_link :: "faults \<Rightarrow> string \<Rightarrow> uuid \<Rightarrow> db \<Rightarrow> uuid \<Rightarrow> uuid \<Rightarrow> int option
    \<Rightarrow> response \<times> db" where
  "create_public_link flt publicToken newId d userId fileId expiresAt =
     (case owned_file (flt 0) d userId fileId of
        None \<Rightarrow> ((404, ErrorBody ''File not found''), d)
      | Some file \<Rightarrow>
        if flt 1 then (internal_error, d)
        else
          (let share = \<lparr> s_id = newId, s_file_id = fileId, s_owner_id = userId,
                  s_shared_with_email = '''', s_permissions = PView, s_share_type = Public,
                  s_public_token = Some publicToken, s_expires_at = expiresAt \<rparr>
           in ((200, PublicLinkBody ''Public link created'' publicToken share),
               d\<lparr>shares := shares d @ [share]\<rparr>)))"

text \<open>
  GET /public/:token, without authentication. \<open>now\<close> is the clock. Store calls: 0 the
  read of the public share with its file embedded (\<^verbatim>\<open>share.files\<close>, null when the file
  row is gone, which makes the handler throw), 1 the signing.
\<close>

definition resolve_public_link :: "faults \<Rightarrow> int \<Rightarrow> db \<Rightarrow> string \<Rightarrow> response" where
  "resolve_public_link flt now d token =
     (case maybeSingle (flt 0)
             (filter (\<lambda>s. s_public_token s = Some token \<and> s_share_type s = Public) (shares d)) of
        QError \<Rightarrow> internal_error
      | QData None \<Rightarrow> (404, ErrorBody ''Link not found'')
      | QData (Some share) \<Rightarrow>
        if (case s_expires_at share of Some e \<Rightarrow> e < now | None \<Rightarrow> False)
        then (410, ErrorBody ''Link expired'')
        else
          (case find (\<lambda>f. f_id f = s_file_id share) (files d) of
             None \<Rightarrow> internal_error
           | Some file \<Rightarrow>
             (case createSignedUrl (flt 1) d (f_path file) 3600 of
                None \<Rightarrow> internal_error
              | Some signed \<Rightarrow>
                (200, DownloadBody signed
                   \<lparr> m_id = f_id file, m_name = f_name file, m_size = f_size file,
                     m_type = f_type file \<rparr>))))"

text \<open>DELETE /public/:token. Store call 0 is the delete.\<close>

definition revoke_public_link :: "faults \<Rightarrow> db \<Rightarrow> uuid \<Rightarrow> string \<Rightarrow> response \<times> db" where
  "revoke_public_link flt d userId token =
     (if flt 0 then (internal_error, d)
      else ((200, MessageBody ''Public link revoked''),
            d\<lparr>shares := filter (\<lambda>s. \<not> (s_public_token s = Some token \<and> s_owner_id s = userId))
                           (shares d)\<rparr>))"

section \<open>Integrity of the tables and notions of the specification\<close>

text \<open>
  The database keeps \<^verbatim>\<open>files.id\<close> and \<^verbatim>\<open>profiles.id\<close> as primary keys.
\<close>

definition primary_keys :: "db \<Rightarrow> bool" where
  "primary_keys d = (distinct (map f_id (files d)) \<and> distinct (map p_id (profiles d)))"

text \<open>
  The share invariant of the data model: a public link carries the empty email and a
  private share a real one, and a file has at most one private share per email.
\<close>

definition private_shares :: "db \<Rightarrow> uuid \<Rightarrow> string \<Rightarrow> share_row list" where
  "private_shares d fileId email =
     filter (\<lambda>s. s_share_type s = Private \<and> s_file_id s = fileId \<and> s_shared_with_email s = email)
       (shares d)"

definition private_share_key :: "db \<Rightarrow> bool" where
  "private_share_key d =
     ((\<forall>s \<in> set (shares d). (s_share_type s = Public) = (s_shared_with_email s = []))
      \<and> (\<forall>fileId email. length (private_shares d fileId email) \<le> 1))"

text \<open>The caller owns the file: a row of \<^verbatim>\<open>files\<close> has the id and the caller as user.\<close>

definition owns :: "db \<Rightarrow> uuid \<Rightarrow> uuid \<Rightarrow> bool" where
  "owns d userId fileId = (\<exists>f \<in> set (files d). f_id f = fileId \<and> f_user_id f = userId)"

text \<open>The private shares of a file keyed by the email of the caller's profile.\<close>

definition shares_with_caller :: "db \<Rightarrow> uuid \<Rightarrow> uuid \<Rightarrow> share_row list" where
  "shares_with_caller d userId fileId =
     filter (\<lambda>s. s_share_type s = Private \<and> s_file_id s = fileId
                \<and> (\<exists>p \<in> set (profiles d). p_id p = userId \<and> p_email p = s_shared_with_email s))
       (shares d)"

definition share_level :: "share_row \<Rightarrow> PermissionLevel" where
  "share_level s = (if s_permissions s = PView then LView else LEdit)"

text \<open>
  The versions of a file are numbered \<open>1, \<dots>, N\<close>, each number once (\<open>N = 0\<close>: none).
\<close>

definition versions_exactly :: "db \<Rightarrow> uuid \<Rightarrow> int \<Rightarrow> bool" where
  "versions_exactly d fileId N =
     (distinct (map v_version_number (file_versions_of d fileId))
      \<and> set (map v_version_number (file_versions_of d fileId)) = {1..N})"

text \<open>
  A serialized sequence of version creations on one file by one caller: each call, with
  its own fault schedule, object-name prefix and upload, runs on the store the call
  before it left. The responses are kept in order.
\<close>

fun create_versions :: "(faults \<times> string \<times> upload_file option) list \<Rightarrow> db \<Rightarrow> uuid \<Rightarrow> uuid
    \<Rightarrow> response list \<times> db" where
  "create_versions [] d userId fileId = ([], d)"
| "create_versions ((flt, stamp, fileBlob) # calls) d userId fileId =
     (let (r, d1) = create_version flt stamp d userId fileId fileBlob;
          (rs, d2) = create_versions calls d1 userId fileId
      in (r # rs, d2))"

text \<open>The version number a response of POST /:id/versions reports, if it reports one.\<close>

fun assigned_version :: "response \<Rightarrow> int option" where
  "assigned_version (st, VersionBody msg v) = (if st = 200 then Some (v_version_number v) else None)"
| "assigned_version r = None"

section \<open>A small store for concrete runs\<close>

text \<open>
  Alice owns \<open>f1\<close>, which has two versions, and \<open>f2\<close>, which is in the trash. Bob holds
  a view share on \<open>f1\<close>, Carol an admin share; Dave has none. \<open>f2\<close> has a public link
  without expiry, \<open>f1\<close> one that expired at instant 100.
\<close>

definition file1 :: file_row where
  "file1 = \<lparr> f_id = ''f1'', f_user_id = ''alice'', f_name = ''a.txt'',
       f_original_name = ''a.txt'', f_size = 7, f_type = ''text/plain'',
       f_mime_type = ''text/plain'', f_extension = Some ''txt'', f_path = ''alice/v2'',
       f_parent_id = None, f_is_folder = False, f_is_starred = False, f_is_deleted = False,
       f_deleted_at = None \<rparr>"

definition file2 :: file_row where
  "file2 = \<lparr> f_id = ''f2'', f_user_id = ''alice'', f_name = ''b.txt'',
       f_original_name = ''b.txt'', f_size = 3, f_type = ''text/plain'',
       f_mime_type = ''text/plain'', f_extension = Some ''txt'', f_path = ''alice/b'',
       f_parent_id = None, f_is_folder = False, f_is_starred = False, f_is_deleted = True,
       f_deleted_at = Some 50 \<rparr>"

definition version1 :: version_row where
  "version1 = \<lparr> v_file_id = ''f1'', v_version_number = 1, v_size = 5, v_path = ''alice/v1'',
       v_change_type = Update, v_created_by = ''alice'' \<rparr>"

definition version2 :: version_row where
  "version2 = \<lparr> v_file_id = ''f1'', v_version_number = 2, v_size = 7, v_path = ''alice/v2'',
       v_change_type = Update, v_created_by = ''alice'' \<rparr>"

definition share_bob :: share_row where
  "share_bob = \<lparr> s_id = ''s1'', s_file_id = ''f1'', s_owner_id = ''alice'',
       s_shared_with_email = ''bob@x'', s_permissions = PView, s_share_type = Private,
       s_public_token = None, s_expires_at = None \<rparr>"

definition share_carol :: share_row where
  "share_carol = \<lparr> s_id = ''s2'', s_file_id = ''f1'', s_owner_id = ''alice'',
       s_shared_with_email = ''carol@x'', s_permissions = PAdmin, s_share_type = Private,
       s_public_token = None, s_expires_at = None \<rparr>"

definition link_open :: share_row where
  "link_open = \<lparr> s_id = ''s3'', s_file_id = ''f2'', s_owner_id = ''alice'',
       s_shared_with_email = '''', s_permissions = PView, s_share_type = Public,
       s_public_token = Some ''t-open'', s_expires_at = None \<rparr>"

definition link_expired :: share_row where
  "link_expired = \<lparr> s_id = ''s4'', s_file_id = ''f1'', s_owner_id = ''alice'',
       s_shared_with_email = '''', s_permissions = PView, s_share_type = Public,
       s_public_token = Some ''t-old'', s_expires_at = Some 100 \<rparr>"

definition quota_alice :: quota_row where
  "quota_alice = \<lparr> q_user_id = ''alice'', q_storage_used = Some 10, q_storage_limit = Some 15,
       q_file_count = Some 3, q_file_count_limit = Some 3 \<rparr>"

definition drive :: db where
  "drive = \<lparr> files = [file1, file2],
       file_versions = [version1, version2],
       shares = [share_bob, share_carol, link_open, link_expired],
       profiles = [\<lparr> p_id = ''alice'', p_email = ''alice@x'' \<rparr>,
                   \<lparr> p_id = ''bob'', p_email = ''bob@x'' \<rparr>,
                   \<lparr> p_id = ''carol'', p_email = ''carol@x'' \<rparr>,
                   \<lparr> p_id = ''dave'', p_email = ''dave@x'' \<rparr>],
       user_quotas = [quota_alice],
       storage = [''alice/v1'', ''alice/v2'', ''alice/b''] \<rparr>"

definition note_file :: "int \<Rightarrow> upload_file" where
  "note_file n = \<lparr> u_originalname = ''a.txt'', u_mimetype = ''text/plain'', u_size = n \<rparr>"

definition rename_body :: patch_body where
  "rename_body = \<lparr> b_name = Some ''c.txt'', b_parentId = None, b_starred = None \<rparr>"

lemmas drive_defs = drive_def file1_def file2_def version1_def version2_def share_bob_def
  share_carol_def link_open_def link_expired_def quota_alice_def note_file_def rename_body_def
  reliable_def

section \<open>Lemmas on the store reads\<close>

lemma filter_le1_cases:
  assumes "distinct (map k xs)"
  shows "filter (\<lambda>x. k x = a) xs = [] \<or> (\<exists>x. filter (\<lambda>x. k x = a) xs = [x])"
  using assms
proof (induction xs)
  case Nil
  then show ?case by simp
next
  case (Cons y ys)
  show ?case
  proof (cases "k y = a")
    case True
    then have "a \<notin> k ` set ys" using Cons.prems by simp
    then have "\<forall>x \<in> set ys. k x \<noteq> a" by blast
    then have "filter (\<lambda>x. k x = a) ys = []" by (simp add: filter_empty_conv)
    with True show ?thesis by simp
  next
    case False
    then show ?thesis using Cons by simp
  qed
qed

lemma owned_rows:
  assumes "distinct (map f_id (files d))"
  shows "(owns d userId fileId \<and> (\<exists>f. filter (\<lambda>f. f_id f = fileId \<and> f_user_id f = userId) (files d) = [f]))
       \<or> (\<not> owns d userId fileId \<and> filter (\<lambda>f. f_id f = fileId \<and> f_user_id f = userId) (files d) = [])"
proof -
  have eq: "filter (\<lambda>f. f_id f = fileId \<and> f_user_id f = userId) (files d)
      = filter (\<lambda>f. f_user_id f = userId) (filter (\<lambda>f. f_id f = fileId) (files d))"
    by (simp add: conj_commute)
  from filter_le1_cases[OF assms, of fileId]
  show ?thesis
  proof
    assume e: "filter (\<lambda>x. f_id x = fileId) (files d) = []"
    then have "\<not> owns d userId fileId" by (auto simp: owns_def filter_empty_conv)
    with e eq show ?thesis by simp
  next
    assume "\<exists>x. filter (\<lambda>x. f_id x = fileId) (files d) = [x]"
    then obtain x where x: "filter (\<lambda>x. f_id x = fileId) (files d) = [x]" by blast
    have mem: "\<And>f. (f \<in> set (files d) \<and> f_id f = fileId) = (f = x)"
    proof -
      fix f
      have "set (filter (\<lambda>x. f_id x = fileId) (files d)) = {x}" using x by simp
      then show "(f \<in> set (files d) \<and> f_id f = fileId) = (f = x)" by auto
    qed
    show ?thesis
    proof (cases "f_user_id x = userId")
      case True
      then have "owns d userId fileId" using mem[of x] by (auto simp: owns_def)
      with True x eq show ?thesis by simp
    next
      case False
      then have "\<not> owns d userId fileId" unfolding owns_def using mem by metis
      with False x eq show ?thesis by simp
    qed
  qed
qed

lemma isOwner_owns:
  assumes "distinct (map f_id (files d))"
  shows "isOwner False d userId fileId = owns d userId fileId"
  using owned_rows[OF assms, of userId fileId]
  by (auto simp: isOwner_def maybeSingle_def)

lemma caller_shares:
  assumes pk: "distinct (map p_id (profiles d))"
    and wf: "\<forall>s \<in> set (shares d). (s_share_type s = Public) = (s_shared_with_email s = [])"
  shows "shares_with_caller d userId fileId =
     (case getCurrentUserEmail False d userId of
        None \<Rightarrow> []
      | Some e \<Rightarrow> if e = [] then []
                  else filter (\<lambda>s. s_file_id s = fileId \<and> s_shared_with_email s = e) (shares d))"
proof -
  from filter_le1_cases[OF pk, of userId]
  show ?thesis
  proof
    assume e: "filter (\<lambda>x. p_id x = userId) (profiles d) = []"
    then have "\<forall>p \<in> set (profiles d). p_id p \<noteq> userId" by (simp add: filter_empty_conv)
    then have "shares_with_caller d userId fileId = []"
      by (auto simp: shares_with_caller_def filter_empty_conv)
    with e show ?thesis by (simp add: getCurrentUserEmail_def single_def)
  next
    assume "\<exists>x. filter (\<lambda>x. p_id x = userId) (profiles d) = [x]"
    then obtain p where p: "filter (\<lambda>x. p_id x = userId) (profiles d) = [p]" by blast
    have "set (filter (\<lambda>x. p_id x = userId) (profiles d)) = {p}" using p by simp
    then have mem: "\<forall>q. (q \<in> set (profiles d) \<and> p_id q = userId) = (q = p)" by auto
    have em: "getCurrentUserEmail False d userId = Some (p_email p)"
      using p by (simp add: getCurrentUserEmail_def single_def)
    have pred: "\<And>s. (\<exists>q \<in> set (profiles d). p_id q = userId \<and> p_email q = s_shared_with_email s)
        = (s_shared_with_email s = p_email p)"
      using mem by (metis (full_types))
    have priv: "\<And>s. s \<in> set (shares d) \<Longrightarrow> s_shared_with_email s \<noteq> [] \<Longrightarrow> s_share_type s = Private"
      using wf by (metis share_type.exhaust)
    have pub: "\<And>s. s \<in> set (shares d) \<Longrightarrow> s_share_type s = Private \<Longrightarrow> s_shared_with_email s \<noteq> []"
      using wf by (metis share_type.distinct(1))
    show ?thesis
    proof (cases "p_email p = []")
      case True
      have "shares_with_caller d userId fileId = []"
        unfolding shares_with_caller_def pred using pub True by (auto simp: filter_empty_conv)
      with em True show ?thesis by simp
    next
      case False
      have "shares_with_caller d userId fileId
          = filter (\<lambda>s. s_file_id s = fileId \<and> s_shared_with_email s = p_email p) (shares d)"
        unfolding shares_with_caller_def pred
        by (rule filter_cong) (use priv False in auto)
      with em False show ?thesis by simp
    qed
  qed
qed

lemma caller_shares_le1:
  assumes pk: "distinct (map p_id (profiles d))" and key: "private_share_key d"
  shows "length (shares_with_caller d userId fileId) \<le> 1"
proof -
  from filter_le1_cases[OF pk, of userId]
  show ?thesis
  proof
    assume "filter (\<lambda>x. p_id x = userId) (profiles d) = []"
    then have "\<forall>p \<in> set (profiles d). p_id p \<noteq> userId" by (simp add: filter_empty_conv)
    then have "shares_with_caller d userId fileId = []"
      by (auto simp: shares_with_caller_def filter_empty_conv)
    then show ?thesis by simp
  next
    assume "\<exists>x. filter (\<lambda>x. p_id x = userId) (profiles d) = [x]"
    then obtain p where p: "filter (\<lambda>x. p_id x = userId) (profiles d) = [p]" by blast
    have "set (filter (\<lambda>x. p_id x = userId) (profiles d)) = {p}" using p by simp
    then have mem: "\<forall>q. (q \<in> set (profiles d) \<and> p_id q = userId) = (q = p)" by auto
    have pred: "\<And>s. (\<exists>q \<in> set (profiles d). p_id q = userId \<and> p_email q = s_shared_with_email s)
        = (s_shared_with_email s = p_email p)"
      using mem by (metis (full_types))
    have "shares_with_caller d userId fileId = private_shares d fileId (p_email p)"
      unfolding shares_with_caller_def private_shares_def pred by simp
    then show ?thesis using key by (simp add: private_share_key_def)
  qed
qed

lemma js_add_exact: "\<bar>a + b\<bar> \<le> 2 ^ 53 \<Longrightarrow> js_add a b = a + b"
  by (simp add: js_add_def to_double_def)

lemma quota_of_rows:
  assumes "\<not> fault"
    and "filter (\<lambda>q. q_user_id q = userId) (user_quotas d) = rows"
    and "rows = [] \<and> U = 0 \<and> L = 5 * 1024 * 1024 * 1024 \<and> C = 0 \<and> CL = 10000
       \<or> rows = [q] \<and> q_storage_used q = Some U \<and> q_storage_limit q = Some L
          \<and> q_file_count q = Some C \<and> q_file_count_limit q = Some CL"
    and "\<bar>U + S\<bar> \<le> 2 ^ 53" and "\<bar>C + 1\<bar> \<le> 2 ^ 53"
  shows "enforceQuotaOnUpload fault d userId S =
     (if U + S > L then Denied ''STORAGE_LIMIT_EXCEEDED''
      else if C + 1 > CL then Denied ''FILE_COUNT_LIMIT_EXCEEDED'' else Allowed)"
proof -
  have s: "js_add U S = U + S" and c: "js_add C 1 = C + 1"
    using assms(4,5) by (simp_all add: js_add_exact)
  show ?thesis
    using assms(1-3) s c
    by (auto simp: enforceQuotaOnUpload_def maybeSingle_def orElse_def Let_def)
qed

lemma drive_primary_keys: "primary_keys drive"
  by (simp add: primary_keys_def drive_defs)

lemma drive_private_share_key: "private_share_key drive"
  by (auto simp: private_share_key_def private_shares_def drive_defs)

lemma drive_reliable: "\<not> reliable k"
  by (simp add: reliable_def)

lemma filter_key_row:
  assumes "distinct (map k xs)" and "x \<in> set xs"
  shows "filter (\<lambda>y. k y = k x) xs = [x]"
  using assms
proof (induction xs)
  case Nil
  then show ?case by simp
next
  case (Cons y ys)
  show ?case
  proof (cases "y = x")
    case True
    have "k x \<notin> k ` set ys" using Cons.prems True by simp
    then have "\<forall>z \<in> set ys. k z \<noteq> k x" by (metis imageI)
    then have "filter (\<lambda>y. k y = k x) ys = []" by (simp add: filter_empty_conv)
    with True show ?thesis by simp
  next
    case False
    then have mem: "x \<in> set ys" using Cons.prems by simp
    have "k y \<notin> k ` set ys" using Cons.prems by simp
    then have "k y \<noteq> k x" using mem by (metis imageI)
    then show ?thesis using Cons mem by simp
  qed
qed

lemma filter_key_and:
  assumes "distinct (map k xs)" and "x \<in> set xs"
  shows "filter (\<lambda>y. k y = k x \<and> P y) xs = (if P x then [x] else [])"
proof -
  have "filter (\<lambda>y. k y = k x \<and> P y) xs = filter P (filter (\<lambda>y. k y = k x) xs)"
    by (simp add: conj_commute)
  then show ?thesis using filter_key_row[OF assms] by simp
qed

lemma owned_file_found:
  assumes "primary_keys d" and "f \<in> set (files d)" and "f_id f = fileId"
    and "f_user_id f = userId" and "\<not> fault"
  shows "owned_file fault d userId fileId = Some f"
proof -
  have pk: "distinct (map f_id (files d))" using assms(1) by (simp add: primary_keys_def)
  show ?thesis
    using filter_key_and[OF pk assms(2), of "\<lambda>g. f_user_id g = userId"] assms(3-5)
    by (simp add: owned_file_def single_def)
qed

lemma owned_file_not_owner:
  assumes "\<not> owns d userId fileId"
  shows "owned_file fault d userId fileId = None"
proof -
  have "filter (\<lambda>f. f_id f = fileId \<and> f_user_id f = userId) (files d) = []"
    using assms by (auto simp: owns_def filter_empty_conv)
  then show ?thesis by (simp add: owned_file_def single_def)
qed

lemma file_row_undeleted:
  assumes "primary_keys d" and "f \<in> set (files d)" and "f_id f = fileId"
  shows "filter (\<lambda>g. f_id g = fileId \<and> f_is_deleted g = False) (files d)
           = (if f_is_deleted f then [] else [f])"
proof -
  have pk: "distinct (map f_id (files d))" using assms(1) by (simp add: primary_keys_def)
  show ?thesis
    using filter_key_and[OF pk assms(2), of "\<lambda>g. f_is_deleted g = False"] assms(3)
    by auto
qed

lemma view_permission_with_share:
  assumes "\<not> flt 0" and "\<not> flt 1" and "\<not> flt 2"
    and pkf: "distinct (map f_id (files d))" and pkp: "distinct (map p_id (profiles d))"
    and wf: "\<forall>s \<in> set (shares d). (s_share_type s = Public) = (s_shared_with_email s = [])"
    and "\<not> owns d userId fileId" and "shares_with_caller d userId fileId = [s]"
  shows "hasFilePermission flt d userId fileId LView = (True, Some (share_level s))"
proof -
  obtain e where e: "getCurrentUserEmail False d userId = Some e" "e \<noteq> []"
      "filter (\<lambda>s. s_file_id s = fileId \<and> s_shared_with_email s = e) (shares d) = [s]"
    using caller_shares[OF pkp wf, of userId fileId] assms(8)
    by (auto split: option.splits if_splits)
  show ?thesis
    using isOwner_owns[OF pkf, of userId fileId] e assms(1-3,7)
    by (simp add: hasFilePermission_def maybeSingle_def share_level_def Let_def)
qed

lemma find_key_row:
  assumes "distinct (map k xs)" and "x \<in> set xs"
  shows "find (\<lambda>y. k y = k x) xs = Some x"
  using assms
proof (induction xs)
  case Nil
  then show ?case by simp
next
  case (Cons y ys)
  show ?case
  proof (cases "y = x")
    case True
    then show ?thesis by simp
  next
    case False
    then have mem: "x \<in> set ys" using Cons.prems by simp
    have "k y \<notin> k ` set ys" using Cons.prems by simp
    then have "k y \<noteq> k x" using mem by (metis imageI)
    then show ?thesis using Cons mem by simp
  qed
qed

lemma resolve_public_link_ok:
  assumes "\<not> flt 0" and "\<not> flt 1"
    and "filter (\<lambda>s. s_public_token s = Some token \<and> s_share_type s = Public) (shares d) = [s]"
    and "\<forall>e. s_expires_at s = Some e \<longrightarrow> now \<le> e"
    and "primary_keys d" and "f \<in> set (files d)" and "f_id f = s_file_id s"
    and "f_path f \<in> set (storage d)"
  shows "resolve_public_link flt now d token =
           (200, DownloadBody (SignedUrl (f_path f) 3600)
                   \<lparr> m_id = f_id f, m_name = f_name f, m_size = f_size f, m_type = f_type f \<rparr>)"
proof -
  have pk: "distinct (map f_id (files d))" using assms(5) by (simp add: primary_keys_def)
  have fnd: "find (\<lambda>g. f_id g = s_file_id s) (files d) = Some f"
    using find_key_row[OF pk assms(6)] assms(7) by simp
  have ne: "\<not> (case s_expires_at s of Some e \<Rightarrow> e < now | None \<Rightarrow> False)"
    using assms(4) by (cases "s_expires_at s") auto
  show ?thesis
    using assms(1,2,3,8) fnd ne
    by (simp add: resolve_public_link_def maybeSingle_def createSignedUrl_def)
qed

lemma private_share_key_shares:
  "shares d' = shares d \<Longrightarrow> private_share_key d' = private_share_key d"
  by (simp add: private_share_key_def private_shares_def)

lemma private_share_key_filter:
  assumes "private_share_key d" and "shares d' = filter P (shares d)"
  shows "private_share_key d'"
proof -
  have "length (private_shares d' fileId email) \<le> 1" for fileId email
  proof -
    have "private_shares d' fileId email = filter P (private_shares d fileId email)"
      using assms(2) by (simp add: private_shares_def conj_commute)
    then have "length (private_shares d' fileId email) \<le> length (private_shares d fileId email)"
      by simp
    then show ?thesis using assms(1) unfolding private_share_key_def
      by (meson le_trans)
  qed
  then show ?thesis using assms by (simp add: private_share_key_def)
qed

lemma private_share_key_append:
  assumes "private_share_key d" and "shares d' = shares d @ [s]"
    and "(s_share_type s = Public) = (s_shared_with_email s = [])"
    and "s_share_type s = Private \<Longrightarrow> private_shares d (s_file_id s) (s_shared_with_email s) = []"
  shows "private_share_key d'"
proof -
  have "length (private_shares d' fileId email) \<le> 1" for fileId email
  proof (cases "s_share_type s = Private \<and> s_file_id s = fileId \<and> s_shared_with_email s = email")
    case True
    then have "private_shares d' fileId email = [s]"
      using assms(2,4) by (simp add: private_shares_def)
    then show ?thesis by simp
  next
    case False
    then have "private_shares d' fileId email = private_shares d fileId email"
      using assms(2) by (auto simp: private_shares_def)
    then show ?thesis using assms(1) by (simp add: private_share_key_def)
  qed
  then show ?thesis using assms(1-3) by (simp add: private_share_key_def)
qed

lemma keyed_rows_private:
  assumes "private_share_key d" and "em \<noteq> []"
  shows "filter (\<lambda>s. s_file_id s = fileId \<and> s_shared_with_email s = em) (shares d)
           = private_shares d fileId em"
  unfolding private_shares_def
proof (rule filter_cong[OF refl])
  fix s assume "s \<in> set (shares d)"
  then have "s_shared_with_email s = em \<Longrightarrow> s_share_type s = Private"
    using assms by (metis private_share_key_def share_type.exhaust)
  then show "(s_file_id s = fileId \<and> s_shared_with_email s = em)
      = (s_share_type s = Private \<and> s_file_id s = fileId \<and> s_shared_with_email s = em)"
    by blast
qed

lemma orNull_Some: "orNull v = Some em \<Longrightarrow> em \<noteq> []"
  by (auto simp: orNull_def split: option.splits if_splits)

lemma data_maybeSingle_None:
  "data (maybeSingle False rows) = None \<Longrightarrow> length rows \<le> 1 \<Longrightarrow> rows = []"
  by (cases rows rule: at_most_one.cases) (simp_all add: maybeSingle_def)

text \<open>What a successful targeted share has done.\<close>

lemma share_file_success:
  assumes "share_file flt newId d userId fileId email perms = ((200, b), d')"
  shows "\<exists>em pm. orNull email = Some em
      \<and> parse_permissions (orElse perms ''view'') = Some pm
      \<and> owned_file (flt 0) d userId fileId \<noteq> None
      \<and> data (single (flt 1) (filter (\<lambda>p. p_email p = em) (profiles d))) \<noteq> None
      \<and> data (maybeSingle (flt 2)
           (filter (\<lambda>s. s_file_id s = fileId \<and> s_shared_with_email s = em) (shares d))) = None
      \<and> d' = d\<lparr>shares := shares d @ [\<lparr> s_id = newId, s_file_id = fileId, s_owner_id = userId,
                              s_shared_with_email = em, s_permissions = pm,
                              s_share_type = default_share_type, s_public_token = None,
                              s_expires_at = None \<rparr>]\<rparr>"
  using assms
  by (auto simp: share_file_def Let_def internal_error_def split: option.splits if_splits)

lemma share_file_changes:
  "snd (share_file flt newId d userId fileId email perms) = d
   \<or> (\<exists>b. share_file flt newId d userId fileId email perms
            = ((200, b), snd (share_file flt newId d userId fileId email perms)))"
  by (auto simp: share_file_def Let_def split: option.splits if_splits)

lemma share_file_preserves:
  assumes "private_share_key d" and "\<not> flt 2"
  shows "private_share_key (snd (share_file flt newId d userId fileId email perms))"
proof -
  from share_file_changes[of flt newId d userId fileId email perms]
  show ?thesis
  proof
    assume "snd (share_file flt newId d userId fileId email perms) = d"
    then show ?thesis using assms(1) by simp
  next
    assume "\<exists>b. share_file flt newId d userId fileId email perms
            = ((200, b), snd (share_file flt newId d userId fileId email perms))"
    then obtain b where ok: "share_file flt newId d userId fileId email perms
            = ((200, b), snd (share_file flt newId d userId fileId email perms))" by blast
    from share_file_success[OF ok] obtain em pm where
      em: "orNull email = Some em"
      and none: "data (maybeSingle (flt 2)
           (filter (\<lambda>s. s_file_id s = fileId \<and> s_shared_with_email s = em) (shares d))) = None"
      and d': "snd (share_file flt newId d userId fileId email perms) =
          d\<lparr>shares := shares d @ [\<lparr> s_id = newId, s_file_id = fileId, s_owner_id = userId,
                              s_shared_with_email = em, s_permissions = pm,
                              s_share_type = default_share_type, s_public_token = None,
                              s_expires_at = None \<rparr>]\<rparr>"
      by blast
    have ne: "em \<noteq> []" using em by (rule orNull_Some)
    have rows: "filter (\<lambda>s. s_file_id s = fileId \<and> s_shared_with_email s = em) (shares d)
        = private_shares d fileId em"
      by (rule keyed_rows_private[OF assms(1) ne])
    have "private_shares d fileId em = []"
      using none assms rows data_maybeSingle_None[of "private_shares d fileId em"]
      by (simp add: private_share_key_def)
    then have "private_share_key (d\<lparr>shares := shares d @ [\<lparr> s_id = newId, s_file_id = fileId,
                              s_owner_id = userId,
                              s_shared_with_email = em, s_permissions = pm,
                              s_share_type = default_share_type, s_public_token = None,
                              s_expires_at = None \<rparr>]\<rparr>)"
      using ne
      by (intro private_share_key_append[OF assms(1), where s = "\<lparr> s_id = newId,
                              s_file_id = fileId, s_owner_id = userId,
                              s_shared_with_email = em, s_permissions = pm,
                              s_share_type = default_share_type, s_public_token = None,
                              s_expires_at = None \<rparr>"])
         (simp_all add: default_share_type_def)
    then show ?thesis using d' by simp
  qed
qed

lemma revoke_share_preserves:
  assumes "private_share_key d"
  shows "private_share_key (snd (revoke_share flt d userId fileId shareId))"
proof (cases "snd (revoke_share flt d userId fileId shareId) = d")
  case True
  then show ?thesis using assms by simp
next
  case False
  then have "shares (snd (revoke_share flt d userId fileId shareId))
      = filter (\<lambda>s. \<not> (s_id s = shareId \<and> s_file_id s = fileId)) (shares d)"
    by (auto simp: revoke_share_def split: option.splits if_splits)
  then show ?thesis by (rule private_share_key_filter[OF assms])
qed

lemma revoke_public_link_preserves:
  assumes "private_share_key d"
  shows "private_share_key (snd (revoke_public_link flt d userId token))"
proof (cases "flt 0")
  case True
  then show ?thesis using assms by (simp add: revoke_public_link_def)
next
  case False
  then have "shares (snd (revoke_public_link flt d userId token))
      = filter (\<lambda>s. \<not> (s_public_token s = Some token \<and> s_owner_id s = userId)) (shares d)"
    by (simp add: revoke_public_link_def)
  then show ?thesis by (rule private_share_key_filter[OF assms])
qed

lemma create_public_link_preserves:
  assumes "private_share_key d"
  shows "private_share_key (snd (create_public_link flt publicToken newId d userId fileId expiresAt))"
proof (cases "snd (create_public_link flt publicToken newId d userId fileId expiresAt) = d")
  case True
  then show ?thesis using assms by simp
next
  case False
  then have "shares (snd (create_public_link flt publicToken newId d userId fileId expiresAt))
      = shares d @ [\<lparr> s_id = newId, s_file_id = fileId, s_owner_id = userId,
                  s_shared_with_email = '''', s_permissions = PView, s_share_type = Public,
                  s_public_token = Some publicToken, s_expires_at = expiresAt \<rparr>]"
    by (auto simp: create_public_link_def Let_def split: option.splits if_splits)
  then show ?thesis
    by (rule private_share_key_append[OF assms]) simp_all
qed

lemma file_handlers_keep_shares:
  "shares (snd (upload flt stamp newId d userId file parentId)) = shares d"
  "shares (snd (create_folder flt stamp newId d userId name parentId)) = shares d"
  "shares (snd (patch_file flt d userId fileId b)) = shares d"
  "shares (snd (soft_delete flt now d userId fileId)) = shares d"
  "shares (snd (restore_file flt d userId fileId)) = shares d"
  "shares (snd (permanent_delete flt d userId fileId)) = shares d"
  "shares (snd (create_version flt stamp d userId fileId fileBlob)) = shares d"
  "shares (snd (restore_version flt d userId fileId versionNumber)) = shares d"
  by (auto simp: upload_def create_folder_def patch_file_def soft_delete_def restore_file_def permanent_delete_def
      create_version_def restore_version_def storage_upload_def storage_remove_def Let_def
      split: option.splits if_splits quota_check.splits)

lemma single_reread:
  "data (single fault rows) \<noteq> None \<Longrightarrow> \<not> fault' \<Longrightarrow> data (single fault' rows) \<noteq> None"
  by (simp add: single_def split: if_splits)

lemma share_file_again:
  assumes key: "private_share_key d" and "\<not> flt 2"
    and ok: "share_file flt newId d userId fileId email perms = ((200, b), d')"
    and "\<not> flt' 0" and "\<not> flt' 1" and "\<not> flt' 2"
    and "parse_permissions (orElse perms' ''view'') \<noteq> None"
  shows "share_file flt' newId' d' userId fileId email perms'
           = ((409, ErrorBody ''File already shared with this user''), d')
       \<and> length (filter (\<lambda>s. s_file_id s = fileId \<and> Some (s_shared_with_email s) = orNull email)
                   (shares d')) = 1"
proof -
  from share_file_success[OF ok] obtain em pm where
    em: "orNull email = Some em"
    and own: "owned_file (flt 0) d userId fileId \<noteq> None"
    and tgt: "data (single (flt 1) (filter (\<lambda>p. p_email p = em) (profiles d))) \<noteq> None"
    and none: "data (maybeSingle (flt 2)
           (filter (\<lambda>s. s_file_id s = fileId \<and> s_shared_with_email s = em) (shares d))) = None"
    and d': "d' = d\<lparr>shares := shares d @ [\<lparr> s_id = newId, s_file_id = fileId, s_owner_id = userId,
                              s_shared_with_email = em, s_permissions = pm,
                              s_share_type = default_share_type, s_public_token = None,
                              s_expires_at = None \<rparr>]\<rparr>"
    by blast
  have ne: "em \<noteq> []" using em by (rule orNull_Some)
  have rows: "filter (\<lambda>s. s_file_id s = fileId \<and> s_shared_with_email s = em) (shares d)
      = private_shares d fileId em"
    by (rule keyed_rows_private[OF key ne])
  have empty: "filter (\<lambda>s. s_file_id s = fileId \<and> s_shared_with_email s = em) (shares d) = []"
    using none assms(1,2) rows data_maybeSingle_None[of "private_shares d fileId em"]
    by (simp add: private_share_key_def)
  have one: "filter (\<lambda>s. s_file_id s = fileId \<and> s_shared_with_email s = em) (shares d')
      = [\<lparr> s_id = newId, s_file_id = fileId, s_owner_id = userId,
           s_shared_with_email = em, s_permissions = pm,
           s_share_type = default_share_type, s_public_token = None, s_expires_at = None \<rparr>]"
    using empty by (simp add: d')
  have own': "owned_file (flt' 0) d' userId fileId \<noteq> None"
    using own assms(4) single_reread[of "flt 0" _ "flt' 0"]
    by (simp add: owned_file_def d')
  have tgt': "data (single (flt' 1) (filter (\<lambda>p. p_email p = em) (profiles d'))) \<noteq> None"
    using tgt assms(5) single_reread[of "flt 1" _ "flt' 1"]
    by (simp add: d')
  have "share_file flt' newId' d' userId fileId email perms'
           = ((409, ErrorBody ''File already shared with this user''), d')"
    using em own' tgt' one assms(6,7)
    by (auto simp: share_file_def maybeSingle_def split: option.splits)
  moreover have "length (filter (\<lambda>s. s_file_id s = fileId \<and> Some (s_shared_with_email s) = orNull email)
                   (shares d')) = 1"
    using one em by simp
  ultimately show ?thesis by simp
qed

lemma sorted_last_Max:
  fixes zs :: "int list"
  assumes "sorted zs" and "zs \<noteq> []"
  shows "last zs = Max (set zs)"
proof -
  have "y \<le> last zs" if "y \<in> set zs" for y
  proof -
    from that obtain i where i: "i < length zs" "zs ! i = y" by (auto simp: in_set_conv_nth)
    have "zs ! i \<le> zs ! (length zs - 1)"
      using assms i by (intro sorted_nth_mono) auto
    then show ?thesis using i assms(2) by (simp add: last_conv_nth)
  qed
  moreover have "last zs \<in> set zs" using assms(2) by simp
  ultimately show ?thesis by (intro Max_eqI[symmetric]) auto
qed

lemma order_desc_first:
  assumes "rows \<noteq> []"
  shows "\<exists>v. take 1 (order_desc rows) = [v]
      \<and> v_version_number v = Max (set (map v_version_number rows))"
proof -
  let ?ys = "sort_key v_version_number rows"
  have ne: "?ys \<noteq> []" using assms by (metis length_sort length_0_conv)
  have t: "take 1 (order_desc rows) = [last ?ys]"
    using ne by (cases ?ys rule: rev_cases) (simp_all add: order_desc_def)
  have "v_version_number (last ?ys) = last (map v_version_number ?ys)"
    using ne by (simp add: last_map)
  also have "\<dots> = Max (set (map v_version_number ?ys))"
    using ne by (intro sorted_last_Max) simp_all
  also have "\<dots> = Max (set (map v_version_number rows))" by simp
  finally show ?thesis using t by blast
qed

lemma nextVersion_max:
  "nextVersion False d fileId =
     js_add (if file_versions_of d fileId = [] then 0
             else Max (set (map v_version_number (file_versions_of d fileId)))) 1"
proof (cases "file_versions_of d fileId = []")
  case True
  then show ?thesis by (simp add: nextVersion_def order_desc_def maybeSingle_def)
next
  case False
  from order_desc_first[OF False] obtain v where
    "take 1 (order_desc (file_versions_of d fileId)) = [v]"
    "v_version_number v = Max (set (map v_version_number (file_versions_of d fileId)))"
    by blast
  then show ?thesis using False by (simp add: nextVersion_def maybeSingle_def)
qed

lemma nextVersion_failed: "nextVersion True d fileId = 1"
  by (simp add: nextVersion_def maybeSingle_def js_add_def to_double_def)

lemma Max_interval_int: "(1::int) \<le> N \<Longrightarrow> Max {1..N} = N"
  by (rule Max_eqI) auto

lemma nextVersion_exactly_double:
  assumes "versions_exactly d fileId N" and "0 \<le> N"
  shows "nextVersion False d fileId = js_add N 1"
proof (cases "N = 0")
  case True
  then have "file_versions_of d fileId = []"
    using assms(1) by (simp add: versions_exactly_def)
  then show ?thesis using True by (simp add: nextVersion_max)
next
  case False
  then have n: "1 \<le> N" using assms(2) by simp
  have s: "set (map v_version_number (file_versions_of d fileId)) = {1..N}"
    using assms(1) by (simp add: versions_exactly_def)
  then have "file_versions_of d fileId \<noteq> []" using n by auto
  then show ?thesis using n by (simp only: nextVersion_max s) (simp add: Max_interval_int)
qed

lemma nextVersion_exactly:
  assumes "versions_exactly d fileId N" and "0 \<le> N" and "N < 2 ^ 53"
  shows "nextVersion False d fileId = N + 1"
  using nextVersion_exactly_double[OF assms(1,2)] assms(2,3) by (simp add: js_add_exact)

lemma ulp_above: "ulp 9007199254740993 = 2"
  by (simp add: ulp.simps)

lemma js_add_rounds: "js_add (2 ^ 53) 1 = 2 ^ 53"
  by (simp add: js_add_def to_double_def ulp_above Let_def)

lemma version_number_taken_exactly:
  assumes "versions_exactly d fileId N"
  shows "version_number_taken d fileId n = (1 \<le> n \<and> n \<le> N)"
proof -
  have "version_number_taken d fileId n
      = (n \<in> set (map v_version_number (file_versions_of d fileId)))"
    by (auto simp: version_number_taken_def)
  then show ?thesis using assms by (simp add: versions_exactly_def)
qed

lemma version_number_taken_files:
  "file_versions d' = file_versions d \<Longrightarrow>
     version_number_taken d' fileId n = version_number_taken d fileId n"
  by (simp add: version_number_taken_def file_versions_of_def)

lemma nextVersion_files:
  "file_versions d' = file_versions d \<Longrightarrow> nextVersion fault d' fileId = nextVersion fault d fileId"
  by (simp add: nextVersion_def file_versions_of_def)

lemma version_row_of_number:
  assumes "versions_exactly d fileId N" and "1 \<le> K" and "K \<le> N"
  shows "\<exists>vk \<in> set (file_versions_of d fileId). v_version_number vk = K
      \<and> filter (\<lambda>v. v_version_number v = K) (file_versions_of d fileId) = [vk]"
proof -
  have "K \<in> set (map v_version_number (file_versions_of d fileId))"
    using assms by (simp add: versions_exactly_def)
  then obtain vk where vk: "vk \<in> set (file_versions_of d fileId)" "v_version_number vk = K"
    by auto
  have "distinct (map v_version_number (file_versions_of d fileId))"
    using assms(1) by (simp add: versions_exactly_def)
  from filter_key_row[OF this vk(1)] vk show ?thesis by auto
qed

lemma drive_versions: "file_versions_of drive ''f1'' = [version1, version2]"
  by (simp add: file_versions_of_def drive_defs)

lemma drive_versions_exactly: "versions_exactly drive ''f1'' 2"
proof -
  have "{1, 2} = {1..2::int}" by auto
  then show ?thesis
    by (simp add: versions_exactly_def drive_versions version1_def version2_def)
qed

lemma create_version_success:
  assumes ok: "create_version flt stamp d userId fileId fileBlob = ((200, b), d')"
  shows "\<exists>v. b = VersionBody ''New version created'' v
      \<and> v_file_id v = fileId \<and> v_version_number v = nextVersion (flt 2) d fileId
      \<and> \<not> version_number_taken d fileId (v_version_number v)
      \<and> file_versions d' = file_versions d @ [v]"
proof (cases fileBlob)
  case None
  then show ?thesis using ok by (simp add: create_version_def)
next
  case (Some fb)
  let ?rows = "filter (\<lambda>f. f_id f = fileId \<and> f_user_id f = userId \<and> f_is_deleted f = False) (files d)"
  let ?p = "userId @ ''/versions/'' @ fileId @ ''/'' @ stamp
              @ (case getFileExt (u_originalname fb) of Some e \<Rightarrow> ''.'' @ e | None \<Rightarrow> [])"
  show ?thesis
  proof (cases "data (single (flt 0) ?rows)")
    case None
    then show ?thesis using ok Some by (simp add: create_version_def)
  next
    case found: (Some fl)
    show ?thesis
    proof (cases "storage_upload (flt 1) ?p d")
      case None
      then show ?thesis
        using ok Some found by (simp add: create_version_def Let_def internal_error_def)
    next
      case up: (Some d1)
      have fv: "file_versions d1 = file_versions d"
        using up by (auto simp: storage_upload_def split: if_splits)
      have nv: "nextVersion (flt 2) d1 fileId = nextVersion (flt 2) d fileId"
        by (rule nextVersion_files[OF fv])
      have tk: "version_number_taken d1 fileId n = version_number_taken d fileId n" for n
        by (rule version_number_taken_files[OF fv])
      have f34: "\<not> flt 3" "\<not> flt 4"
          "\<not> version_number_taken d fileId (nextVersion (flt 2) d fileId)"
        using ok Some found up nv tk
        by (auto simp: create_version_def Let_def internal_error_def split: if_splits)
      show ?thesis
        using ok Some found up f34 nv tk fv
        by (auto simp: create_version_def Let_def)
    qed
  qed
qed

lemma versions_exactly_append:
  assumes "versions_exactly d fileId M" and "0 \<le> M"
    and "file_versions d' = file_versions d @ [v]"
    and "v_file_id v = fileId" and "v_version_number v = M + 1"
  shows "versions_exactly d' fileId (M + 1)"
proof -
  have fv: "file_versions_of d' fileId = file_versions_of d fileId @ [v]"
    using assms(3,4) by (simp add: file_versions_of_def)
  have "{1..M + 1} = insert (M + 1) {1..M}" using assms(2) by auto
  then show ?thesis
    using assms(1,5) by (auto simp: versions_exactly_def fv)
qed

lemma create_version_step:
  assumes "versions_exactly d fileId M" and "0 \<le> M" and "M \<le> 2 ^ 53"
    and "create_version flt stamp d userId fileId fileBlob = (r, d')" and "fst r = 200"
  shows "assigned_version r = Some (M + 1) \<and> versions_exactly d' fileId (M + 1)
       \<and> M + 1 \<le> 2 ^ 53"
proof -
  obtain st b where r: "r = (st, b)" by (cases r)
  then have ok: "create_version flt stamp d userId fileId fileBlob = ((200, b), d')"
    using assms(4,5) by simp
  from create_version_success[OF ok] obtain v where
    v: "b = VersionBody ''New version created'' v" "v_file_id v = fileId"
      "v_version_number v = nextVersion (flt 2) d fileId"
      "\<not> version_number_taken d fileId (v_version_number v)"
      "file_versions d' = file_versions d @ [v]"
    by blast
  have free: "\<not> (1 \<le> v_version_number v \<and> v_version_number v \<le> M)"
    using v(4) version_number_taken_exactly[OF assms(1)] by simp
  have n: "v_version_number v = M + 1 \<and> M < 2 ^ 53"
  proof (cases "flt 2")
    case True
    then have "v_version_number v = 1" using v(3) by (simp add: nextVersion_failed)
    then show ?thesis using free assms(2) by simp
  next
    case False
    then have d: "v_version_number v = js_add M 1"
      using v(3) nextVersion_exactly_double[OF assms(1,2)] by simp
    show ?thesis
    proof (cases "M = 2 ^ 53")
      case True
      have "js_add M 1 = M" unfolding True by (rule js_add_rounds)
      then have "v_version_number v = M" using d by simp
      then show ?thesis using free True by simp
    next
      case False
      then have "M < 2 ^ 53" using assms(3) by simp
      then show ?thesis using d assms(2) by (simp add: js_add_exact)
    qed
  qed
  have "assigned_version r = Some (M + 1)" using r v(1) n assms(5) by simp
  then show ?thesis
    using versions_exactly_append[OF assms(1,2) v(5,2)] n by simp
qed

lemma create_versions_run:
  assumes "versions_exactly d fileId M" and "0 \<le> M" and "M \<le> 2 ^ 53"
    and "create_versions calls d userId fileId = (rs, d')"
    and "\<forall>r \<in> set rs. fst r = 200"
  shows "map assigned_version rs = map Some [M + 1..M + int (length calls)]
       \<and> versions_exactly d' fileId (M + int (length calls))"
  using assms
proof (induction calls arbitrary: d M rs)
  case Nil
  then show ?case by simp
next
  case (Cons c calls)
  obtain flt stamp fileBlob where c: "c = (flt, stamp, fileBlob)" by (cases c)
  obtain r d1 where first: "create_version flt stamp d userId fileId fileBlob = (r, d1)"
    by (cases "create_version flt stamp d userId fileId fileBlob")
  obtain rs1 where rest: "create_versions calls d1 userId fileId = (rs1, d')" and rs: "rs = r # rs1"
    using Cons.prems(4) c first by (auto split: prod.splits)
  have ok: "fst r = 200" using Cons.prems(5) rs by simp
  from create_version_step[OF Cons.prems(1,2,3) first ok]
  have step: "assigned_version r = Some (M + 1)" "versions_exactly d1 fileId (M + 1)"
      "M + 1 \<le> 2 ^ 53"
    by simp_all
  have ih: "map assigned_version rs1 = map Some [M + 1 + 1..M + 1 + int (length calls)]
       \<and> versions_exactly d' fileId (M + 1 + int (length calls))"
    using Cons.IH[OF step(2) _ step(3) rest] Cons.prems(2,5) rs by simp
  have len: "M + int (length (c # calls)) = M + 1 + int (length calls)" by simp
  have up: "[M + 1..M + 1 + int (length calls)]
      = (M + 1) # [M + 1 + 1..M + 1 + int (length calls)]"
    by (rule upto_rec1) simp
  have "map assigned_version rs = map Some [M + 1..M + 1 + int (length calls)]"
    unfolding rs up using step(1) ih by simp
  then show ?case unfolding len using ih by simp
qed

text \<open>What a successful restore of a version has done.\<close>

lemma restore_version_success:
  assumes "versions_exactly d fileId N" and "1 \<le> N" and "N < 2 ^ 53"
    and "filter (\<lambda>v. v_version_number v = K) (file_versions_of d fileId) = [vk]"
    and "restore_version flt d userId fileId (Some K) = ((200, b), d')"
  shows "b = MessageBody ''File restored to selected version''
       \<and> d' = d\<lparr>files := map (\<lambda>g. if f_id g = fileId
                                      then g\<lparr>f_path := v_path vk, f_size := v_size vk\<rparr> else g)
                               (files d),
                 file_versions := file_versions d @
                   [\<lparr> v_file_id = fileId, v_version_number = N + 1, v_size = v_size vk,
                      v_path = v_path vk, v_change_type = Restore, v_created_by = userId \<rparr>]\<rparr>"
proof -
  have n0: "0 \<le> N" using assms(2) by simp
  have nv: "nextVersion False (d\<lparr>files := fs\<rparr>) fileId = N + 1" for fs
    using nextVersion_exactly[OF assms(1) n0 assms(3)]
      nextVersion_files[of "d\<lparr>files := fs\<rparr>" d False fileId]
    by simp
  have nf: "nextVersion True (d\<lparr>files := fs\<rparr>) fileId = 1" for fs
    by (rule nextVersion_failed)
  have tk: "version_number_taken (d\<lparr>files := fs\<rparr>) fileId n = (1 \<le> n \<and> n \<le> N)" for fs n
    using version_number_taken_exactly[OF assms(1), of n]
      version_number_taken_files[of "d\<lparr>files := fs\<rparr>" d fileId n]
    by simp
  have f3: "\<not> flt 3"
  proof
    assume "flt 3"
    then show False
      using assms(2,4,5) nf tk
      by (auto simp: restore_version_def single_def Let_def internal_error_def
          split: option.splits if_splits)
  qed
  show ?thesis
    using assms(4,5) f3 nv tk
    by (auto simp: restore_version_def single_def Let_def internal_error_def
        split: option.splits if_splits)
qed

lemma restore_version_reliable:
  assumes "primary_keys d" and "f \<in> set (files d)" and "f_id f = fileId" and "f_user_id f = userId"
    and "versions_exactly d fileId N" and "1 \<le> N" and "N < 2 ^ 53"
    and "filter (\<lambda>v. v_version_number v = K) (file_versions_of d fileId) = [vk]"
    and "\<not> flt 0" and "\<not> flt 1" and "\<not> flt 2" and "\<not> flt 3" and "\<not> flt 4"
  shows "restore_version flt d userId fileId (Some K) =
           ((200, MessageBody ''File restored to selected version''),
            d\<lparr>files := map (\<lambda>g. if f_id g = fileId
                                  then g\<lparr>f_path := v_path vk, f_size := v_size vk\<rparr> else g)
                           (files d),
              file_versions := file_versions d @
                [\<lparr> v_file_id = fileId, v_version_number = N + 1, v_size = v_size vk,
                   v_path = v_path vk, v_change_type = Restore, v_created_by = userId \<rparr>]\<rparr>)"
proof -
  have n0: "0 \<le> N" using assms(6) by simp
  have nv: "nextVersion (flt 3) (d\<lparr>files := fs\<rparr>) fileId = N + 1" for fs
    using nextVersion_exactly[OF assms(5) n0 assms(7)] assms(12)
      nextVersion_files[of "d\<lparr>files := fs\<rparr>" d False fileId]
    by simp
  have tk: "\<not> version_number_taken (d\<lparr>files := fs\<rparr>) fileId (N + 1)" for fs
    using version_number_taken_exactly[OF assms(5), of "N + 1"]
      version_number_taken_files[of "d\<lparr>files := fs\<rparr>" d fileId "N + 1"]
    by simp
  show ?thesis
    using owned_file_found[OF assms(1-4) assms(9)] assms(8,10,11,13) nv tk
    by (simp add: restore_version_def single_def Let_def)
qed

lemma restore_version_absent:
  assumes "\<forall>v \<in> set (file_versions_of d fileId). v_version_number v \<noteq> K"
  shows "fst (fst (restore_version flt d userId fileId (Some K))) = 404
       \<and> snd (restore_version flt d userId fileId (Some K)) = d"
proof -
  have "filter (\<lambda>v. v_version_number v = K) (file_versions_of d fileId) = []"
    using assms by (simp add: filter_empty_conv)
  then show ?thesis
    by (simp add: restore_version_def single_def split: option.splits)
qed

section \<open>Quota enforcement on upload\<close>

text \<open>
  Claim C1, as the code has it. Let the quota read of an upload succeed and give the
  caller's quota state \<open>U, L, C, CL\<close>: the fields of the caller's quota row, or \<open>0\<close>, 5 GiB,
  \<open>0\<close> and \<open>10000\<close> when the caller has no row. Let the sums \<open>U + S\<close> and \<open>C + 1\<close> be of
  magnitude at most \<open>2 ^ 53\<close>, where the addition of JavaScript numbers is exact. Then an
  upload of a file of size \<open>S\<close> with \<open>U + S > L\<close> is answered 403 with code
  \<^verbatim>\<open>STORAGE_LIMIT_EXCEEDED\<close>, and an upload with \<open>U + S \<le> L\<close> and \<open>C + 1 > CL\<close> is answered 403
  with code \<^verbatim>\<open>FILE_COUNT_LIMIT_EXCEEDED\<close>. In both cases the store is returned as it was:
  the check ran before any blob write, and neither a blob nor a file row was created.
  What an upload does when its quota read fails is not part of this statement.
\<close>

theorem upload_quota_rejected:
  assumes "\<not> flt 0"
    and "filter (\<lambda>q. q_user_id q = userId) (user_quotas d) = rows"
    and "rows = [] \<and> U = 0 \<and> L = 5 * 1024 * 1024 * 1024 \<and> C = 0 \<and> CL = 10000
       \<or> rows = [q] \<and> q_storage_used q = Some U \<and> q_storage_limit q = Some L
          \<and> q_file_count q = Some C \<and> q_file_count_limit q = Some CL"
    and "\<bar>U + u_size fl\<bar> \<le> 2 ^ 53" and "\<bar>C + 1\<bar> \<le> 2 ^ 53"
  shows "(U + u_size fl > L \<longrightarrow>
            upload flt stamp newId d userId (Some fl) parentId
              = ((403, QuotaErrorBody ''STORAGE_LIMIT_EXCEEDED''), d))
       \<and> (U + u_size fl \<le> L \<and> C + 1 > CL \<longrightarrow>
            upload flt stamp newId d userId (Some fl) parentId
              = ((403, QuotaErrorBody ''FILE_COUNT_LIMIT_EXCEEDED''), d))"
  using quota_of_rows[OF assms] by (simp add: upload_def)

theorem upload_quota_rejected_witness:
  "filter (\<lambda>q. q_user_id q = ''alice'') (user_quotas drive) = [quota_alice]
   \<and> q_storage_used quota_alice = Some 10 \<and> q_storage_limit quota_alice = Some 15
   \<and> q_file_count quota_alice = Some 3 \<and> q_file_count_limit quota_alice = Some 3
   \<and> upload reliable ''s'' ''id1'' drive ''alice'' (Some (note_file 6)) None
       = ((403, QuotaErrorBody ''STORAGE_LIMIT_EXCEEDED''), drive)
   \<and> upload reliable ''s'' ''id1'' drive ''alice'' (Some (note_file 1)) None
       = ((403, QuotaErrorBody ''FILE_COUNT_LIMIT_EXCEEDED''), drive)"
proof -
  have rows: "filter (\<lambda>q. q_user_id q = ''alice'') (user_quotas drive) = [quota_alice]"
    by (simp add: drive_defs)
  have a: "upload reliable ''s'' ''id1'' drive ''alice'' (Some (note_file 6)) None
     = ((403, QuotaErrorBody ''STORAGE_LIMIT_EXCEEDED''), drive)"
    using upload_quota_rejected[where flt = reliable and userId = "''alice''" and d = drive
        and rows = "[quota_alice]" and q = quota_alice and U = 10 and L = 15 and C = 3 and CL = 3
        and fl = "note_file 6" and stamp = "''s''" and newId = "''id1''" and parentId = None]
      rows
    by (simp add: drive_defs)
  have b: "upload reliable ''s'' ''id1'' drive ''alice'' (Some (note_file 1)) None
     = ((403, QuotaErrorBody ''FILE_COUNT_LIMIT_EXCEEDED''), drive)"
    using upload_quota_rejected[where flt = reliable and userId = "''alice''" and d = drive
        and rows = "[quota_alice]" and q = quota_alice and U = 10 and L = 15 and C = 3 and CL = 3
        and fl = "note_file 1" and stamp = "''s''" and newId = "''id1''" and parentId = None]
      rows
    by (simp add: drive_defs)
  show ?thesis using rows a b by (simp add: quota_alice_def)
qed

text \<open>
  C1 as it is written fails twice on Alice, who has used 10 bytes of 15 and has 3 files
  of 3 allowed. Her upload of 6 bytes exceeds both ceilings and is refused with the
  storage code, which is tested first, not with the file-count code. And when the quota
  read of that upload fails, the handler, which never looks at the read's error, falls
  back on the defaults and lets the upload through: the answer is 200, the blob is
  written and the file row inserted.
\<close>

theorem upload_quota_counterexample:
  "q_storage_used quota_alice = Some 10 \<and> q_storage_limit quota_alice = Some 15
   \<and> q_file_count quota_alice = Some 3 \<and> q_file_count_limit quota_alice = Some 3
   \<and> (10::int) + 6 > 15 \<and> (3::int) + 1 > 3
   \<and> upload reliable ''s'' ''id1'' drive ''alice'' (Some (note_file 6)) None
       = ((403, QuotaErrorBody ''STORAGE_LIMIT_EXCEEDED''), drive)
   \<and> fst (fst (upload (\<lambda>k. k = 0) ''s'' ''id1'' drive ''alice'' (Some (note_file 6)) None)) = 200
   \<and> storage (snd (upload (\<lambda>k. k = 0) ''s'' ''id1'' drive ''alice'' (Some (note_file 6)) None))
       = storage drive @ [''alice/s.txt'']
   \<and> map f_id (files (snd (upload (\<lambda>k. k = 0) ''s'' ''id1'' drive ''alice''
         (Some (note_file 6)) None))) = [''f1'', ''f2'', ''id1'']"
  by (simp add: upload_def enforceQuotaOnUpload_def maybeSingle_def orElse_def js_add_def
      to_double_def storage_upload_def getFileExt_def Let_def drive_defs)

section \<open>Permission resolution\<close>

text \<open>
  Claim C2. On a store whose primary keys and share invariant hold, and when the three
  reads do not fail: a caller who owns the file is allowed with level owner whatever is
  needed. For a caller who does not own it, needing owner is denied; with no private share
  of the file keyed by the caller's email every need is denied; with such a share \<open>s\<close>,
  needing view is allowed and needing edit is allowed exactly when \<open>s\<close> grants edit or
  admin, the level reported being view for a view share and edit for the other two.
  There is never more than one such share.
\<close>

theorem hasFilePermission_resolution:
  assumes "\<not> flt 0" and "\<not> flt 1" and "\<not> flt 2"
    and "primary_keys d" and "private_share_key d"
  shows "(owns d userId fileId \<longrightarrow>
            hasFilePermission flt d userId fileId needed = (True, Some LOwner))
       \<and> (\<not> owns d userId fileId \<longrightarrow>
            hasFilePermission flt d userId fileId LOwner = (False, None)
          \<and> (shares_with_caller d userId fileId = [] \<longrightarrow>
               hasFilePermission flt d userId fileId needed = (False, None))
          \<and> (\<forall>s. shares_with_caller d userId fileId = [s] \<longrightarrow>
               hasFilePermission flt d userId fileId LView = (True, Some (share_level s))
             \<and> hasFilePermission flt d userId fileId LEdit
                 = (s_permissions s = PEdit \<or> s_permissions s = PAdmin, Some (share_level s))))
       \<and> length (shares_with_caller d userId fileId) \<le> 1"
proof -
  have pkf: "distinct (map f_id (files d))" and pkp: "distinct (map p_id (profiles d))"
    using assms(4) by (simp_all add: primary_keys_def)
  have wf: "\<forall>s \<in> set (shares d). (s_share_type s = Public) = (s_shared_with_email s = [])"
    using assms(5) by (simp add: private_share_key_def)
  note own = isOwner_owns[OF pkf, of userId fileId]
  note cs = caller_shares[OF pkp wf, of userId fileId]
  have le1: "length (shares_with_caller d userId fileId) \<le> 1"
    by (rule caller_shares_le1[OF pkp assms(5)])
  have a: "owns d userId fileId \<Longrightarrow>
      hasFilePermission flt d userId fileId needed = (True, Some LOwner)"
    using own assms(1) by (simp add: hasFilePermission_def)
  have b: "\<not> owns d userId fileId \<Longrightarrow> hasFilePermission flt d userId fileId LOwner = (False, None)"
    using own assms(1) by (simp add: hasFilePermission_def)
  have c: "\<not> owns d userId fileId \<Longrightarrow> shares_with_caller d userId fileId = [] \<Longrightarrow>
      hasFilePermission flt d userId fileId needed = (False, None)"
    using own cs assms(1-3)
    by (cases needed)
       (auto simp: hasFilePermission_def maybeSingle_def split: option.splits if_splits)
  have e: "\<not> owns d userId fileId \<Longrightarrow> shares_with_caller d userId fileId = [s] \<Longrightarrow>
      hasFilePermission flt d userId fileId LView = (True, Some (share_level s))
      \<and> hasFilePermission flt d userId fileId LEdit
          = (s_permissions s = PEdit \<or> s_permissions s = PAdmin, Some (share_level s))" for s
    using own cs assms(1-3)
    by (cases "s_permissions s")
       (auto simp: hasFilePermission_def maybeSingle_def share_level_def Let_def
             split: option.splits if_splits)
  show ?thesis using a b c e le1 by blast
qed

theorem hasFilePermission_resolution_witness:
  "owns drive ''alice'' ''f1'' \<and> \<not> owns drive ''bob'' ''f1''
   \<and> shares_with_caller drive ''bob'' ''f1'' = [share_bob]
   \<and> shares_with_caller drive ''carol'' ''f1'' = [share_carol]
   \<and> shares_with_caller drive ''dave'' ''f1'' = []
   \<and> hasFilePermission reliable drive ''alice'' ''f1'' LEdit = (True, Some LOwner)
   \<and> hasFilePermission reliable drive ''bob'' ''f1'' LOwner = (False, None)
   \<and> hasFilePermission reliable drive ''bob'' ''f1'' LView = (True, Some LView)
   \<and> hasFilePermission reliable drive ''bob'' ''f1'' LEdit = (False, Some LView)
   \<and> hasFilePermission reliable drive ''carol'' ''f1'' LEdit = (True, Some LEdit)
   \<and> hasFilePermission reliable drive ''dave'' ''f1'' LView = (False, None)"
proof -
  note r = hasFilePermission_resolution[where flt = reliable and d = drive,
      OF drive_reliable drive_reliable drive_reliable drive_primary_keys drive_private_share_key]
  have oa: "owns drive ''alice'' ''f1''" by (simp add: owns_def drive_defs)
  have ob: "\<not> owns drive ''bob'' ''f1''" by (simp add: owns_def drive_defs)
  have oc: "\<not> owns drive ''carol'' ''f1''" by (simp add: owns_def drive_defs)
  have od: "\<not> owns drive ''dave'' ''f1''" by (simp add: owns_def drive_defs)
  have sb: "shares_with_caller drive ''bob'' ''f1'' = [share_bob]"
    by (simp add: shares_with_caller_def drive_defs)
  have sc: "shares_with_caller drive ''carol'' ''f1'' = [share_carol]"
    by (simp add: shares_with_caller_def drive_defs)
  have sd: "shares_with_caller drive ''dave'' ''f1'' = []"
    by (simp add: shares_with_caller_def drive_defs)
  have lb: "share_level share_bob = LView \<and> s_permissions share_bob = PView"
    by (simp add: share_level_def share_bob_def)
  have lc: "share_level share_carol = LEdit \<and> s_permissions share_carol = PAdmin"
    by (simp add: share_level_def share_carol_def)
  have a: "hasFilePermission reliable drive ''alice'' ''f1'' LEdit = (True, Some LOwner)"
    using r[where userId = "''alice''" and fileId = "''f1''" and needed = LEdit] oa by blast
  have b: "hasFilePermission reliable drive ''bob'' ''f1'' LOwner = (False, None)
      \<and> hasFilePermission reliable drive ''bob'' ''f1'' LView = (True, Some LView)
      \<and> hasFilePermission reliable drive ''bob'' ''f1'' LEdit = (False, Some LView)"
    using r[where userId = "''bob''" and fileId = "''f1''" and needed = LView] ob sb lb by simp
  have c: "hasFilePermission reliable drive ''carol'' ''f1'' LEdit = (True, Some LEdit)"
    using r[where userId = "''carol''" and fileId = "''f1''" and needed = LView] oc sc lc by simp
  have d: "hasFilePermission reliable drive ''dave'' ''f1'' LView = (False, None)"
    using r[where userId = "''dave''" and fileId = "''f1''" and needed = LView] od sd by simp
  show ?thesis using oa ob sb sc sd a b c d by simp
qed

section \<open>Trash: soft delete, restore and permanent delete\<close>

text \<open>
  Claim C6. For a file the caller owns, when the ownership read does not fail: a soft
  delete of a file whose \<^verbatim>\<open>is_deleted\<close> flag is set is answered 409, and a restore from
  trash of a file whose flag is not set is answered 409; in both cases the store, and so
  the file row, is returned unchanged.
\<close>

theorem trash_state_conflicts:
  assumes "\<not> flt 0" and "primary_keys d"
    and "f \<in> set (files d)" and "f_id f = fileId" and "f_user_id f = userId"
  shows "(f_is_deleted f \<longrightarrow>
            soft_delete flt now d userId fileId = ((409, ErrorBody ''File already in trash''), d))
       \<and> (\<not> f_is_deleted f \<longrightarrow>
            restore_file flt d userId fileId = ((409, ErrorBody ''File is not in trash''), d))"
  using owned_file_found[OF assms(2-5) assms(1)]
  by (simp add: soft_delete_def restore_file_def)

theorem trash_state_conflicts_witness:
  "file2 \<in> set (files drive) \<and> f_is_deleted file2
   \<and> soft_delete reliable 60 drive ''alice'' ''f2'' = ((409, ErrorBody ''File already in trash''), drive)
   \<and> file1 \<in> set (files drive) \<and> \<not> f_is_deleted file1
   \<and> restore_file reliable drive ''alice'' ''f1'' = ((409, ErrorBody ''File is not in trash''), drive)"
proof -
  have m2: "file2 \<in> set (files drive)" and m1: "file1 \<in> set (files drive)"
    by (simp_all add: drive_def)
  have a: "soft_delete reliable 60 drive ''alice'' ''f2'' = ((409, ErrorBody ''File already in trash''), drive)"
    using trash_state_conflicts[where flt = reliable and d = drive and f = file2
        and fileId = "''f2''" and userId = "''alice''" and now = 60,
        OF drive_reliable drive_primary_keys m2]
    by (simp add: file2_def)
  have b: "restore_file reliable drive ''alice'' ''f1'' = ((409, ErrorBody ''File is not in trash''), drive)"
    using trash_state_conflicts[where flt = reliable and d = drive and f = file1
        and fileId = "''f1''" and userId = "''alice''",
        OF drive_reliable drive_primary_keys m1]
    by (simp add: file1_def)
  show ?thesis using a b m1 m2 by (simp add: file1_def file2_def)
qed

text \<open>
  Claim C10. Permanent deletion does not look at \<^verbatim>\<open>is_deleted\<close>: for every file the
  caller owns, whatever its flag, when the ownership read and the row delete do not fail,
  the answer is 200 and the file row is gone. The blob is removed when its removal
  succeeds; when the removal fails (or the path is empty) the bucket is left as it was
  and the row is deleted all the same.
\<close>

theorem permanent_delete_any_state:
  assumes "\<not> flt 0" and "\<not> flt 2" and "primary_keys d"
    and "f \<in> set (files d)" and "f_id f = fileId" and "f_user_id f = userId"
  shows "permanent_delete flt d userId fileId =
           ((200, MessageBody ''File permanently deleted''),
            d\<lparr>storage := (if f_path f \<noteq> [] \<and> \<not> flt 1
                           then filter (\<lambda>x. x \<noteq> f_path f) (storage d) else storage d),
              files := filter (\<lambda>g. f_id g \<noteq> fileId) (files d)\<rparr>)
       \<and> f \<notin> set (files (snd (permanent_delete flt d userId fileId)))"
  using owned_file_found[OF assms(3-6) assms(1)] assms(2,5)
  by (simp add: permanent_delete_def storage_remove_def Let_def)

theorem permanent_delete_any_state_witness:
  "\<not> f_is_deleted file1
   \<and> permanent_delete reliable drive ''alice'' ''f1'' =
       ((200, MessageBody ''File permanently deleted''),
        drive\<lparr>storage := [''alice/v1'', ''alice/b''], files := [file2]\<rparr>)
   \<and> f_is_deleted file2
   \<and> permanent_delete (\<lambda>k. k = 1) drive ''alice'' ''f2'' =
       ((200, MessageBody ''File permanently deleted''), drive\<lparr>files := [file1]\<rparr>)"
proof -
  have m2: "file2 \<in> set (files drive)" and m1: "file1 \<in> set (files drive)"
    by (simp_all add: drive_def)
  have a: "permanent_delete reliable drive ''alice'' ''f1'' =
       ((200, MessageBody ''File permanently deleted''),
        drive\<lparr>storage := [''alice/v1'', ''alice/b''], files := [file2]\<rparr>)"
    using permanent_delete_any_state[where flt = reliable and d = drive and f = file1
        and fileId = "''f1''" and userId = "''alice''",
        OF drive_reliable drive_reliable drive_primary_keys m1]
    by (simp add: drive_defs)
  have b: "permanent_delete (\<lambda>k. k = 1) drive ''alice'' ''f2'' =
       ((200, MessageBody ''File permanently deleted''), drive\<lparr>files := [file1]\<rparr>)"
    using permanent_delete_any_state[where flt = "\<lambda>k. k = 1" and d = drive and f = file2
        and fileId = "''f2''" and userId = "''alice''", OF _ _ drive_primary_keys m2]
    by (simp add: drive_defs)
  show ?thesis using a b by (simp add: file1_def file2_def)
qed

section \<open>What a view share allows\<close>

text \<open>
  Claim C3, as the code has it. Take a user who does not own file \<open>F\<close> and whose only
  share on it is a view share, on a store whose primary keys and share invariant hold.
  Permission resolution gives that user level view, and when \<open>F\<close> is not in the trash, its
  blob is in the bucket and no store call fails, GET /:id/download answers 200 with a
  URL signed for 3600 seconds. PATCH /:id and DELETE /:id never consult permission
  resolution: they look the file up by id and owner, so this user's attempt is answered
  404 \<^verbatim>\<open>File not found\<close>, whatever the fault schedule, and the store is unchanged.
\<close>

theorem view_share_download_only:
  assumes "\<not> flt 0" and "\<not> flt 1" and "\<not> flt 2" and "\<not> flt 3" and "\<not> flt 4"
    and "primary_keys d" and "private_share_key d"
    and "\<not> owns d userId fileId"
    and "shares_with_caller d userId fileId = [s]" and "s_permissions s = PView"
    and "f \<in> set (files d)" and "f_id f = fileId" and "\<not> f_is_deleted f"
    and "f_path f \<in> set (storage d)"
  shows "hasFilePermission flt d userId fileId LView = (True, Some LView)
       \<and> download flt d userId fileId =
           (200, DownloadBody (SignedUrl (f_path f) 3600)
                   \<lparr> m_id = f_id f, m_name = f_name f, m_size = f_size f, m_type = f_type f \<rparr>)
       \<and> patch_file flt' d userId fileId b = ((404, ErrorBody ''File not found''), d)
       \<and> soft_delete flt' now d userId fileId = ((404, ErrorBody ''File not found''), d)"
proof -
  have pkf: "distinct (map f_id (files d))" and pkp: "distinct (map p_id (profiles d))"
    using assms(6) by (simp_all add: primary_keys_def)
  have wf: "\<forall>s \<in> set (shares d). (s_share_type s = Public) = (s_shared_with_email s = [])"
    using assms(7) by (simp add: private_share_key_def)
  have perm: "hasFilePermission flt d userId fileId LView = (True, Some LView)"
    using view_permission_with_share[OF assms(1-3) pkf pkp wf assms(8,9)] assms(10)
    by (simp add: share_level_def)
  have dl: "download flt d userId fileId =
           (200, DownloadBody (SignedUrl (f_path f) 3600)
                   \<lparr> m_id = f_id f, m_name = f_name f, m_size = f_size f, m_type = f_type f \<rparr>)"
    using perm file_row_undeleted[OF assms(6,11,12)] assms(4,5,13,14)
    by (simp add: download_def single_def createSignedUrl_def)
  have none: "owned_file fault d userId fileId = None" for fault
    by (rule owned_file_not_owner[OF assms(8)])
  have p: "patch_file flt' d userId fileId b = ((404, ErrorBody ''File not found''), d)"
    by (simp add: patch_file_def none)
  have sd: "soft_delete flt' now d userId fileId = ((404, ErrorBody ''File not found''), d)"
    by (simp add: soft_delete_def none)
  show ?thesis using perm dl p sd by simp
qed

theorem view_share_download_only_witness:
  "\<not> owns drive ''bob'' ''f1'' \<and> shares_with_caller drive ''bob'' ''f1'' = [share_bob]
   \<and> s_permissions share_bob = PView
   \<and> download reliable drive ''bob'' ''f1'' =
       (200, DownloadBody (SignedUrl ''alice/v2'' 3600)
               \<lparr> m_id = ''f1'', m_name = ''a.txt'', m_size = 7, m_type = ''text/plain'' \<rparr>)
   \<and> patch_file reliable drive ''bob'' ''f1'' rename_body = ((404, ErrorBody ''File not found''), drive)
   \<and> soft_delete reliable 60 drive ''bob'' ''f1'' = ((404, ErrorBody ''File not found''), drive)"
proof -
  have ob: "\<not> owns drive ''bob'' ''f1''" by (simp add: owns_def drive_defs)
  have sb: "shares_with_caller drive ''bob'' ''f1'' = [share_bob]"
    by (simp add: shares_with_caller_def drive_defs)
  have pv: "s_permissions share_bob = PView" by (simp add: share_bob_def)
  have m1: "file1 \<in> set (files drive)" by (simp add: drive_def)
  have f1: "f_id file1 = ''f1''" "\<not> f_is_deleted file1" "f_path file1 \<in> set (storage drive)"
    by (simp_all add: drive_defs)
  show ?thesis
    using view_share_download_only[where flt = reliable and flt' = reliable and d = drive
        and userId = "''bob''" and fileId = "''f1''" and s = share_bob and f = file1
        and b = rename_body and now = 60,
        OF drive_reliable drive_reliable drive_reliable drive_reliable drive_reliable
          drive_primary_keys drive_private_share_key ob sb pv m1 f1]
      ob sb pv
    by (simp add: file1_def)
qed

text \<open>
  C3 as it is written promises 403 for the PATCH and the DELETE. Bob holds only a view
  share on Alice's \<open>f1\<close>; both of his attempts are answered 404.
\<close>

theorem view_share_patch_status_counterexample:
  "\<not> owns drive ''bob'' ''f1'' \<and> shares_with_caller drive ''bob'' ''f1'' = [share_bob]
   \<and> s_permissions share_bob = PView
   \<and> hasFilePermission reliable drive ''bob'' ''f1'' LEdit = (False, Some LView)
   \<and> fst (fst (patch_file reliable drive ''bob'' ''f1'' rename_body)) = 404
   \<and> fst (fst (patch_file reliable drive ''bob'' ''f1'' rename_body)) \<noteq> 403
   \<and> fst (fst (soft_delete reliable 60 drive ''bob'' ''f1'')) = 404
   \<and> fst (fst (soft_delete reliable 60 drive ''bob'' ''f1'')) \<noteq> 403"
  by (simp add: owns_def shares_with_caller_def hasFilePermission_def isOwner_def
      getCurrentUserEmail_def patch_file_def soft_delete_def owned_file_def single_def
      maybeSingle_def drive_defs)

section \<open>Public links\<close>

text \<open>
  Claim C7. For every token presented to GET /public/:token, when the share read does
  not fail: with no public share of that token the answer is 404; with one whose
  \<^verbatim>\<open>expires_at\<close> is set and strictly before the clock the answer is 410; with one that
  has no expiry or has not expired yet (its file row and blob in place, primary keys
  holding, the signing not failing) the answer is 200 with the file's id, name, size and
  type and a URL for the file's path signed for 3600 seconds.
\<close>

theorem resolve_public_link_cases:
  assumes "\<not> flt 0"
    and "filter (\<lambda>s. s_public_token s = Some token \<and> s_share_type s = Public) (shares d) = rows"
  shows "(rows = [] \<longrightarrow> resolve_public_link flt now d token = (404, ErrorBody ''Link not found''))
       \<and> (\<forall>s e. rows = [s] \<and> s_expires_at s = Some e \<and> e < now \<longrightarrow>
            resolve_public_link flt now d token = (410, ErrorBody ''Link expired''))
       \<and> (\<forall>s f. rows = [s] \<and> (\<forall>e. s_expires_at s = Some e \<longrightarrow> now \<le> e)
              \<and> primary_keys d \<and> f \<in> set (files d) \<and> f_id f = s_file_id s
              \<and> f_path f \<in> set (storage d) \<and> \<not> flt 1 \<longrightarrow>
            resolve_public_link flt now d token =
              (200, DownloadBody (SignedUrl (f_path f) 3600)
                      \<lparr> m_id = f_id f, m_name = f_name f, m_size = f_size f,
                        m_type = f_type f \<rparr>))"
proof -
  have a: "rows = [] \<Longrightarrow> resolve_public_link flt now d token = (404, ErrorBody ''Link not found'')"
    using assms by (simp add: resolve_public_link_def maybeSingle_def)
  have b: "rows = [s] \<Longrightarrow> s_expires_at s = Some e \<Longrightarrow> e < now \<Longrightarrow>
      resolve_public_link flt now d token = (410, ErrorBody ''Link expired'')" for s e
    using assms by (simp add: resolve_public_link_def maybeSingle_def)
  have c: "rows = [s] \<Longrightarrow> (\<forall>e. s_expires_at s = Some e \<longrightarrow> now \<le> e) \<Longrightarrow> primary_keys d \<Longrightarrow>
      f \<in> set (files d) \<Longrightarrow> f_id f = s_file_id s \<Longrightarrow> f_path f \<in> set (storage d) \<Longrightarrow> \<not> flt 1 \<Longrightarrow>
      resolve_public_link flt now d token =
              (200, DownloadBody (SignedUrl (f_path f) 3600)
                      \<lparr> m_id = f_id f, m_name = f_name f, m_size = f_size f,
                        m_type = f_type f \<rparr>)" for s f
    using resolve_public_link_ok[where flt = flt and token = token and d = d and s = s
        and now = now and f = f] assms
    by simp
  show ?thesis using a b c by blast
qed

theorem resolve_public_link_cases_witness:
  "resolve_public_link reliable 200 drive ''t-none'' = (404, ErrorBody ''Link not found'')
   \<and> s_expires_at link_expired = Some 100
   \<and> resolve_public_link reliable 101 drive ''t-old'' = (410, ErrorBody ''Link expired'')
   \<and> resolve_public_link reliable 100 drive ''t-old'' =
       (200, DownloadBody (SignedUrl ''alice/v2'' 3600)
               \<lparr> m_id = ''f1'', m_name = ''a.txt'', m_size = 7, m_type = ''text/plain'' \<rparr>)"
proof -
  have n: "filter (\<lambda>s. s_public_token s = Some ''t-none'' \<and> s_share_type s = Public) (shares drive) = []"
    by (simp add: drive_defs)
  have o: "filter (\<lambda>s. s_public_token s = Some ''t-old'' \<and> s_share_type s = Public) (shares drive)
      = [link_expired]"
    by (simp add: drive_defs)
  have m1: "file1 \<in> set (files drive)" by (simp add: drive_def)
  have a: "resolve_public_link reliable 200 drive ''t-none'' = (404, ErrorBody ''Link not found'')"
    using resolve_public_link_cases[where flt = reliable and now = 200, OF drive_reliable n]
    by simp
  have b: "resolve_public_link reliable 101 drive ''t-old'' = (410, ErrorBody ''Link expired'')"
    using resolve_public_link_cases[where flt = reliable and now = 101, OF drive_reliable o]
    by (simp add: link_expired_def)
  have c: "resolve_public_link reliable 100 drive ''t-old'' =
       (200, DownloadBody (SignedUrl ''alice/v2'' 3600)
               \<lparr> m_id = ''f1'', m_name = ''a.txt'', m_size = 7, m_type = ''text/plain'' \<rparr>)"
  proof -
    have "[link_expired] = [link_expired] \<and> (\<forall>e. s_expires_at link_expired = Some e \<longrightarrow> 100 \<le> e)
              \<and> primary_keys drive \<and> file1 \<in> set (files drive) \<and> f_id file1 = s_file_id link_expired
              \<and> f_path file1 \<in> set (storage drive) \<and> \<not> reliable 1"
      using drive_primary_keys m1 by (simp add: drive_defs)
    then have "resolve_public_link reliable 100 drive ''t-old'' =
              (200, DownloadBody (SignedUrl (f_path file1) 3600)
                      \<lparr> m_id = f_id file1, m_name = f_name file1, m_size = f_size file1,
                        m_type = f_type file1 \<rparr>)"
      using resolve_public_link_cases[where flt = reliable and now = 100, OF drive_reliable o]
      by blast
    then show ?thesis by (simp add: file1_def)
  qed
  show ?thesis using a b c by (simp add: link_expired_def)
qed

text \<open>
  Claim C9. A valid, unexpired public link resolves to the file's metadata and a signed
  URL also when the file is in the owner's trash: the resolution does not look at
  \<^verbatim>\<open>is_deleted\<close>. The authenticated download of the same file does: even the owner gets
  404.
\<close>

theorem public_link_ignores_trash:
  assumes "\<not> flt 0" and "\<not> flt 1"
    and "filter (\<lambda>s. s_public_token s = Some token \<and> s_share_type s = Public) (shares d) = [s]"
    and "\<forall>e. s_expires_at s = Some e \<longrightarrow> now \<le> e"
    and "primary_keys d" and "f \<in> set (files d)" and "f_id f = s_file_id s"
    and "f_path f \<in> set (storage d)"
    and "f_is_deleted f" and "\<not> flt' 0"
  shows "resolve_public_link flt now d token =
           (200, DownloadBody (SignedUrl (f_path f) 3600)
                   \<lparr> m_id = f_id f, m_name = f_name f, m_size = f_size f, m_type = f_type f \<rparr>)
       \<and> download flt' d (f_user_id f) (f_id f) = (404, ErrorBody ''File not found'')"
proof -
  have pk: "distinct (map f_id (files d))" using assms(5) by (simp add: primary_keys_def)
  have own: "owns d (f_user_id f) (f_id f)" using assms(6) by (auto simp: owns_def)
  have perm: "hasFilePermission flt' d (f_user_id f) (f_id f) LView = (True, Some LOwner)"
    using isOwner_owns[OF pk, of "f_user_id f" "f_id f"] own assms(10)
    by (simp add: hasFilePermission_def)
  have none: "filter (\<lambda>g. f_id g = f_id f \<and> f_is_deleted g = False) (files d) = []"
    using file_row_undeleted[OF assms(5,6) refl] assms(9) by simp
  have dl: "download flt' d (f_user_id f) (f_id f) = (404, ErrorBody ''File not found'')"
    using perm none by (simp add: download_def single_def)
  show ?thesis using resolve_public_link_ok[OF assms(1-8)] dl by simp
qed

theorem public_link_ignores_trash_witness:
  "f_is_deleted file2
   \<and> resolve_public_link reliable 200 drive ''t-open'' =
       (200, DownloadBody (SignedUrl ''alice/b'' 3600)
               \<lparr> m_id = ''f2'', m_name = ''b.txt'', m_size = 3, m_type = ''text/plain'' \<rparr>)
   \<and> download reliable drive ''alice'' ''f2'' = (404, ErrorBody ''File not found'')"
proof -
  have o: "filter (\<lambda>s. s_public_token s = Some ''t-open'' \<and> s_share_type s = Public) (shares drive)
      = [link_open]"
    by (simp add: drive_defs)
  have ne: "\<forall>e. s_expires_at link_open = Some e \<longrightarrow> 200 \<le> e" by (simp add: link_open_def)
  have m2: "file2 \<in> set (files drive)" by (simp add: drive_def)
  have f2: "f_id file2 = s_file_id link_open" "f_path file2 \<in> set (storage drive)" "f_is_deleted file2"
    by (simp_all add: drive_defs)
  show ?thesis
    using public_link_ignores_trash[where flt = reliable and flt' = reliable and d = drive
        and token = "''t-open''" and s = link_open and f = file2 and now = 200,
        OF drive_reliable drive_reliable o ne drive_primary_keys m2 f2 drive_reliable]
    by (simp add: file2_def)
qed

section \<open>One private share per file and email\<close>

text \<open>
  Claim C8 asks that a file have at most one private share per email after every
  operation, and that a second targeted share for the same file and email be answered
  409 without a second row. The handler reads the existing share and answers 409 when
  it finds one (\<open>share_file_again\<close>), and with that read succeeding it keeps the invariant
  (\<open>share_file_preserves\<close>); but it never looks at the error of that read, where the reads
  of the file and of the target profile beside it test theirs. On the small store Alice
  shares \<open>f1\<close> with Dave, which is answered 200 and leaves one share for the pair; she asks
  again and the read of the existing share fails: the answer is 200 again and the table
  holds two private shares of \<open>f1\<close> for Dave's email.
\<close>

theorem share_file_duplicate_on_failed_read:
  "fst (fst (share_file reliable ''n1'' drive ''alice'' ''f1'' (Some ''dave@x'') None)) = 200
   \<and> map s_id (private_shares
         (snd (share_file reliable ''n1'' drive ''alice'' ''f1'' (Some ''dave@x'') None))
         ''f1'' ''dave@x'') = [''n1'']
   \<and> fst (fst (share_file (\<lambda>k. k = 2) ''n2''
         (snd (share_file reliable ''n1'' drive ''alice'' ''f1'' (Some ''dave@x'') None))
         ''alice'' ''f1'' (Some ''dave@x'') None)) = 200
   \<and> map s_id (private_shares
         (snd (share_file (\<lambda>k. k = 2) ''n2''
            (snd (share_file reliable ''n1'' drive ''alice'' ''f1'' (Some ''dave@x'') None))
            ''alice'' ''f1'' (Some ''dave@x'') None))
         ''f1'' ''dave@x'') = [''n1'', ''n2'']"
  by (simp add: share_file_def orNull_def orElse_def parse_permissions_def owned_file_def
      single_def maybeSingle_def default_share_type_def private_shares_def Let_def drive_defs)

section \<open>Versions\<close>

text \<open>
  Claim C4. Take a file the caller owns whose versions are numbered \<open>1, \<dots>, N\<close>, with
  \<open>N\<close> below \<open>2 ^ 53\<close>. For every \<open>K\<close> from \<open>1\<close> to \<open>N\<close> there is a version \<open>vk\<close> of number \<open>K\<close>.
  When no store call fails, restoring \<open>K\<close> answers 200; and under every fault schedule, a
  restore of \<open>K\<close> that answers 200 has set the path and size of the file row to those of
  \<open>vk\<close> and appended to the version table exactly one row: number \<open>N + 1\<close>, change type
  restore, path and size those of \<open>vk\<close>; every earlier version row stays. When no
  version of the file has number \<open>K\<close>, the answer is 404 and the store is unchanged,
  under every fault schedule.
\<close>

theorem restore_version_appends:
  assumes "primary_keys d" and "f \<in> set (files d)" and "f_id f = fileId" and "f_user_id f = userId"
  shows "(versions_exactly d fileId N \<and> 1 \<le> K \<and> K \<le> N \<and> N < 2 ^ 53 \<longrightarrow>
            (\<exists>vk \<in> set (file_versions_of d fileId). v_version_number vk = K
               \<and> (\<not> flt 0 \<and> \<not> flt 1 \<and> \<not> flt 2 \<and> \<not> flt 3 \<and> \<not> flt 4 \<longrightarrow>
                    fst (fst (restore_version flt d userId fileId (Some K))) = 200)
               \<and> (\<forall>b d'. restore_version flt d userId fileId (Some K) = ((200, b), d') \<longrightarrow>
                    b = MessageBody ''File restored to selected version''
                    \<and> d' = d\<lparr>files := map (\<lambda>g. if f_id g = fileId
                                          then g\<lparr>f_path := v_path vk, f_size := v_size vk\<rparr> else g)
                                   (files d),
                      file_versions := file_versions d @
                        [\<lparr> v_file_id = fileId, v_version_number = N + 1, v_size = v_size vk,
                           v_path = v_path vk, v_change_type = Restore,
                           v_created_by = userId \<rparr>]\<rparr>)))
       \<and> ((\<forall>v \<in> set (file_versions_of d fileId). v_version_number v \<noteq> K) \<longrightarrow>
            fst (fst (restore_version flt d userId fileId (Some K))) = 404
            \<and> snd (restore_version flt d userId fileId (Some K)) = d)"
proof (rule conjI)
  show "versions_exactly d fileId N \<and> 1 \<le> K \<and> K \<le> N \<and> N < 2 ^ 53 \<longrightarrow>
            (\<exists>vk \<in> set (file_versions_of d fileId). v_version_number vk = K
               \<and> (\<not> flt 0 \<and> \<not> flt 1 \<and> \<not> flt 2 \<and> \<not> flt 3 \<and> \<not> flt 4 \<longrightarrow>
                    fst (fst (restore_version flt d userId fileId (Some K))) = 200)
               \<and> (\<forall>b d'. restore_version flt d userId fileId (Some K) = ((200, b), d') \<longrightarrow>
                    b = MessageBody ''File restored to selected version''
                    \<and> d' = d\<lparr>files := map (\<lambda>g. if f_id g = fileId
                                          then g\<lparr>f_path := v_path vk, f_size := v_size vk\<rparr> else g)
                                   (files d),
                      file_versions := file_versions d @
                        [\<lparr> v_file_id = fileId, v_version_number = N + 1, v_size = v_size vk,
                           v_path = v_path vk, v_change_type = Restore,
                           v_created_by = userId \<rparr>]\<rparr>))"
  proof (rule impI)
    assume c: "versions_exactly d fileId N \<and> 1 \<le> K \<and> K \<le> N \<and> N < 2 ^ 53"
    then have h: "versions_exactly d fileId N" "1 \<le> K" "K \<le> N" "N < 2 ^ 53" by simp_all
    from version_row_of_number[OF h(1-3)] obtain vk where
      vk: "vk \<in> set (file_versions_of d fileId)" "v_version_number vk = K"
        "filter (\<lambda>v. v_version_number v = K) (file_versions_of d fileId) = [vk]"
      by blast
    have n: "1 \<le> N" using h by simp
    have ok: "\<not> flt 0 \<and> \<not> flt 1 \<and> \<not> flt 2 \<and> \<not> flt 3 \<and> \<not> flt 4 \<longrightarrow>
                    fst (fst (restore_version flt d userId fileId (Some K))) = 200"
    proof (rule impI)
      assume nf: "\<not> flt 0 \<and> \<not> flt 1 \<and> \<not> flt 2 \<and> \<not> flt 3 \<and> \<not> flt 4"
      have "restore_version flt d userId fileId (Some K) =
           ((200, MessageBody ''File restored to selected version''),
            d\<lparr>files := map (\<lambda>g. if f_id g = fileId
                                  then g\<lparr>f_path := v_path vk, f_size := v_size vk\<rparr> else g)
                           (files d),
              file_versions := file_versions d @
                [\<lparr> v_file_id = fileId, v_version_number = N + 1, v_size = v_size vk,
                   v_path = v_path vk, v_change_type = Restore, v_created_by = userId \<rparr>]\<rparr>)"
        by (rule restore_version_reliable[OF assms h(1) n h(4) vk(3)]) (use nf in simp_all)
      then show "fst (fst (restore_version flt d userId fileId (Some K))) = 200" by simp
    qed
    have eff: "\<forall>b d'. restore_version flt d userId fileId (Some K) = ((200, b), d') \<longrightarrow>
                    b = MessageBody ''File restored to selected version''
                    \<and> d' = d\<lparr>files := map (\<lambda>g. if f_id g = fileId
                                          then g\<lparr>f_path := v_path vk, f_size := v_size vk\<rparr> else g)
                                   (files d),
                      file_versions := file_versions d @
                        [\<lparr> v_file_id = fileId, v_version_number = N + 1, v_size = v_size vk,
                           v_path = v_path vk, v_change_type = Restore,
                           v_created_by = userId \<rparr>]\<rparr>"
      by (intro allI impI) (rule restore_version_success[OF h(1) n h(4) vk(3)])
    show "\<exists>vk \<in> set (file_versions_of d fileId). v_version_number vk = K
               \<and> (\<not> flt 0 \<and> \<not> flt 1 \<and> \<not> flt 2 \<and> \<not> flt 3 \<and> \<not> flt 4 \<longrightarrow>
                    fst (fst (restore_version flt d userId fileId (Some K))) = 200)
               \<and> (\<forall>b d'. restore_version flt d userId fileId (Some K) = ((200, b), d') \<longrightarrow>
                    b = MessageBody ''File restored to selected version''
                    \<and> d' = d\<lparr>files := map (\<lambda>g. if f_id g = fileId
                                          then g\<lparr>f_path := v_path vk, f_size := v_size vk\<rparr> else g)
                                   (files d),
                      file_versions := file_versions d @
                        [\<lparr> v_file_id = fileId, v_version_number = N + 1, v_size = v_size vk,
                           v_path = v_path vk, v_change_type = Restore,
                           v_created_by = userId \<rparr>]\<rparr>)"
      by (rule bexI[OF _ vk(1)]) (intro conjI vk(2) ok eff)
  qed
next
  show "(\<forall>v \<in> set (file_versions_of d fileId). v_version_number v \<noteq> K) \<longrightarrow>
            fst (fst (restore_version flt d userId fileId (Some K))) = 404
            \<and> snd (restore_version flt d userId fileId (Some K)) = d"
    by (rule impI) (rule restore_version_absent)
qed

theorem restore_version_appends_witness:
  "versions_exactly drive ''f1'' 2
   \<and> restore_version reliable drive ''alice'' ''f1'' (Some 1) =
       ((200, MessageBody ''File restored to selected version''),
        drive\<lparr>files := [file1\<lparr>f_path := ''alice/v1'', f_size := 5\<rparr>, file2],
              file_versions := [version1, version2,
                \<lparr> v_file_id = ''f1'', v_version_number = 3, v_size = 5, v_path = ''alice/v1'',
                   v_change_type = Restore, v_created_by = ''alice'' \<rparr>]\<rparr>)
   \<and> fst (fst (restore_version reliable drive ''alice'' ''f1'' (Some 5))) = 404
   \<and> snd (restore_version reliable drive ''alice'' ''f1'' (Some 5)) = drive"
proof -
  let ?r = "restore_version reliable drive ''alice'' ''f1'' (Some 1)"
  have m1: "file1 \<in> set (files drive)" by (simp add: drive_def)
  have f1: "f_id file1 = ''f1''" "f_user_id file1 = ''alice''" by (simp_all add: file1_def)
  note t = restore_version_appends[where flt = reliable and d = drive and f = file1
      and fileId = "''f1''" and userId = "''alice''", OF drive_primary_keys m1 f1]
  have pre: "versions_exactly drive ''f1'' 2 \<and> (1::int) \<le> 1 \<and> (1::int) \<le> 2 \<and> (2::int) < 2 ^ 53"
    using drive_versions_exactly by simp
  from t[of 2 1, THEN conjunct1, THEN mp, OF pre] obtain vk where
    vk: "vk \<in> set (file_versions_of drive ''f1'')" "v_version_number vk = 1"
    and ok: "\<not> reliable 0 \<and> \<not> reliable 1 \<and> \<not> reliable 2 \<and> \<not> reliable 3 \<and> \<not> reliable 4 \<longrightarrow>
        fst (fst ?r) = 200"
    and r: "\<forall>b d'. ?r = ((200, b), d') \<longrightarrow>
                    b = MessageBody ''File restored to selected version''
                    \<and> d' = drive\<lparr>files := map (\<lambda>g. if f_id g = ''f1''
                                          then g\<lparr>f_path := v_path vk, f_size := v_size vk\<rparr> else g)
                                   (files drive),
                      file_versions := file_versions drive @
                        [\<lparr> v_file_id = ''f1'', v_version_number = 2 + 1, v_size = v_size vk,
                           v_path = v_path vk, v_change_type = Restore,
                           v_created_by = ''alice'' \<rparr>]\<rparr>"
    by (elim bexE conjE)
  have st: "fst (fst ?r) = 200" using ok drive_reliable by simp
  have c: "?r = ((200, snd (fst ?r)), snd ?r)"
    by (subst st[symmetric]) simp
  have vk1: "vk = version1"
    using vk by (auto simp: drive_versions version2_def)
  from r[rule_format, OF c] have "snd (fst ?r) = MessageBody ''File restored to selected version''"
    and "snd ?r = drive\<lparr>files := map (\<lambda>g. if f_id g = ''f1''
                                          then g\<lparr>f_path := v_path vk, f_size := v_size vk\<rparr> else g)
                                   (files drive),
                      file_versions := file_versions drive @
                        [\<lparr> v_file_id = ''f1'', v_version_number = 2 + 1, v_size = v_size vk,
                           v_path = v_path vk, v_change_type = Restore,
                           v_created_by = ''alice'' \<rparr>]\<rparr>"
    by simp_all
  then have a: "?r =
       ((200, MessageBody ''File restored to selected version''),
        drive\<lparr>files := [file1\<lparr>f_path := ''alice/v1'', f_size := 5\<rparr>, file2],
              file_versions := [version1, version2,
                \<lparr> v_file_id = ''f1'', v_version_number = 3, v_size = 5, v_path = ''alice/v1'',
                   v_change_type = Restore, v_created_by = ''alice'' \<rparr>]\<rparr>)"
    by (subst c) (simp add: vk1 drive_defs)
  have "\<forall>v \<in> set (file_versions_of drive ''f1''). v_version_number v \<noteq> 5"
    by (simp add: drive_versions version1_def version2_def)
  then have b: "fst (fst (restore_version reliable drive ''alice'' ''f1'' (Some 5))) = 404
       \<and> snd (restore_version reliable drive ''alice'' ''f1'' (Some 5)) = drive"
    by (rule t[of 2 5, THEN conjunct2, THEN mp])
  show ?thesis using drive_versions_exactly a b by simp
qed

text \<open>
  Claim C5. Run any serialized sequence of version creations on a file whose versions
  are numbered \<open>1, \<dots>, M\<close> (for a file without versions, \<open>M = 0\<close>; \<open>M\<close> at most \<open>2 ^ 53\<close>). If
  all \<open>N\<close> calls succeed, under whatever fault schedules, the numbers they report are
  \<open>M + 1, \<dots>, M + N\<close> in call order, and the versions of the file are then numbered
  \<open>1, \<dots>, M + N\<close>, each number once: no gap, no duplicate, no reuse. On every store, with
  any version rows, the number a call computes when its last-version read succeeds is
  the greatest version number of the file, or \<open>0\<close> when it has none, plus one in
  JavaScript arithmetic, which is the exact sum up to \<open>2 ^ 53\<close>; when that read fails the
  call computes \<open>1\<close>, which the table's uniqueness lets through only for a file without
  a version \<open>1\<close>.
\<close>

theorem version_numbers_sequential:
  "(versions_exactly d fileId M \<and> 0 \<le> M \<and> M \<le> 2 ^ 53
      \<and> create_versions calls d userId fileId = (rs, d') \<and> (\<forall>r \<in> set rs. fst r = 200) \<longrightarrow>
        map assigned_version rs = map Some [M + 1..M + int (length calls)]
        \<and> versions_exactly d' fileId (M + int (length calls)))
   \<and> nextVersion False e fid =
        js_add (if file_versions_of e fid = [] then 0
                else Max (set (map v_version_number (file_versions_of e fid)))) 1
   \<and> (\<bar>m + 1\<bar> \<le> 2 ^ 53 \<longrightarrow> js_add m 1 = m + 1)
   \<and> nextVersion True e fid = 1"
  using create_versions_run[of d fileId M calls userId rs d'] nextVersion_max[of e fid]
    js_add_exact[of m 1] nextVersion_failed[of e fid]
  by blast

theorem version_numbers_sequential_witness:
  "versions_exactly (drive\<lparr>file_versions := []\<rparr>) ''f1'' 0
   \<and> map fst (fst (create_versions
         [(\<lambda>k. k = 2, ''s1'', Some (note_file 1)), (reliable, ''s2'', Some (note_file 2)),
          (reliable, ''s3'', Some (note_file 3))]
         (drive\<lparr>file_versions := []\<rparr>) ''alice'' ''f1'')) = [200, 200, 200]
   \<and> map assigned_version (fst (create_versions
         [(\<lambda>k. k = 2, ''s1'', Some (note_file 1)), (reliable, ''s2'', Some (note_file 2)),
          (reliable, ''s3'', Some (note_file 3))]
         (drive\<lparr>file_versions := []\<rparr>) ''alice'' ''f1'')) = [Some 1, Some 2, Some 3]
   \<and> versions_exactly (snd (create_versions
         [(\<lambda>k. k = 2, ''s1'', Some (note_file 1)), (reliable, ''s2'', Some (note_file 2)),
          (reliable, ''s3'', Some (note_file 3))]
         (drive\<lparr>file_versions := []\<rparr>) ''alice'' ''f1'')) ''f1'' 3"
proof -
  let ?calls = "[(\<lambda>k. k = 2, ''s1'', Some (note_file 1)), (reliable, ''s2'', Some (note_file 2)),
          (reliable, ''s3'', Some (note_file 3))]"
  let ?d = "drive\<lparr>file_versions := []\<rparr>"
  let ?run = "create_versions ?calls ?d ''alice'' ''f1''"
  have v0: "versions_exactly ?d ''f1'' 0"
    by (simp add: versions_exactly_def file_versions_of_def)
  have st: "map fst (fst ?run) = [200, 200, 200]"
    by (simp add: create_version_def single_def maybeSingle_def storage_upload_def
        getFileExt_def nextVersion_def order_desc_def file_versions_of_def
        version_number_taken_def js_add_def to_double_def Let_def drive_defs)
  then have ok: "\<forall>r \<in> set (fst ?run). fst r = 200"
    by (metis (no_types, lifting) imageI list.set_map set_ConsD empty_iff empty_set set_map)
  have run: "?run = (fst ?run, snd ?run)" by simp
  have up: "[0 + 1..0 + int (length ?calls)] = [1, 2, 3]" by (simp add: upto_rec1)
  from version_numbers_sequential[of ?d "''f1''" 0 ?calls "''alice''" "fst ?run" "snd ?run"]
    v0 run ok
  have "map assigned_version (fst ?run) = map Some [0 + 1..0 + int (length ?calls)]
      \<and> versions_exactly (snd ?run) ''f1'' (0 + int (length ?calls))"
    by simp
  then have "map assigned_version (fst ?run) = [Some 1, Some 2, Some 3]
      \<and> versions_exactly (snd ?run) ''f1'' 3"
    unfolding up by simp
  then show ?thesis using v0 st by simp
qed

end
